theory Spec2Isabelle
  imports Main "HOL-Library.Word"
begin

section \<open>The AeroSpace socket client (src/src/aerospace.c)\<close>

text \<open>
  The client of \<^verbatim>\<open>aerospace.c\<close> owns a Unix-domain socket, a fixed read buffer and a
  counter of commands sent on the current connection. This theory embeds its functions
  as HOL functions. A pointer to the client is an \<open>aerospace option\<close> (\<open>None\<close> is the
  NULL pointer). What the operating system answers to a system call is read from an
  environment record, and every system call and every line printed on stderr is
  returned as a list of events, oldest first.
\<close>

subsection \<open>Constants\<close>

definition READ_BUFFER_SIZE :: nat where
  "READ_BUFFER_SIZE = 8192"

definition SOCKET_TIMEOUT_SECS :: nat where
  "SOCKET_TIMEOUT_SECS = 2"

definition AEROSPACE_RECONNECT_INTERVAL :: "32 word" where
  "AEROSPACE_RECONNECT_INTERVAL = 50"

subsection \<open>The client structure\<close>

text \<open>
  \<^verbatim>\<open>struct aerospace\<close>. The descriptor is a C \<open>int\<close>, negative when no socket is held.
  \<open>read_buf\<close> is the array \<^verbatim>\<open>char read_buf[READ_BUFFER_SIZE]\<close>, given as its content at
  every index; \<open>read_buf_len\<close> is a \<open>size_t\<close>, \<open>command_count\<close> an \<open>unsigned int\<close>.
\<close>

record aerospace =
  fd :: int
  socket_path :: "string option"
  read_buf :: "nat \<Rightarrow> char"
  read_buf_len :: nat
  command_count :: "32 word"

text \<open>The bytes the buffer holds: the first \<open>read_buf_len\<close> bytes of the array.\<close>

definition buffered :: "aerospace \<Rightarrow> string" where
  "buffered c = map (read_buf c) [0..<read_buf_len c]"

subsection \<open>JSON documents of the yyjson library\<close>

text \<open>
  The yyjson library is not part of \<^verbatim>\<open>aerospace.c\<close>. Its values are given as a datatype;
  an integer number is the value held in the 64-bit field of the library's number, a
  number that is not an integer is \<open>JReal\<close> (the client never reads its value). An
  object keeps its members in the order of the text.
\<close>

datatype json =
    JNull
  | JBool bool
  | JInt int
  | JReal
  | JStr string
  | JArr "json list"
  | JObj "(string \<times> json) list"

text \<open>\<^verbatim>\<open>yyjson_obj_get\<close>: the first member with the key, NULL when there is none or when the
  value is not an object.\<close>

fun yyjson_obj_get :: "json \<Rightarrow> string \<Rightarrow> json option" where
  "yyjson_obj_get (JObj kvs) key = map_of kvs key"
| "yyjson_obj_get _ key = None"

fun yyjson_is_int :: "json option \<Rightarrow> bool" where
  "yyjson_is_int (Some (JInt n)) = True"
| "yyjson_is_int _ = False"

fun yyjson_is_str :: "json option \<Rightarrow> bool" where
  "yyjson_is_str (Some (JStr s)) = True"
| "yyjson_is_str _ = False"

text \<open>\<^verbatim>\<open>(int)yyjson_get_int(v)\<close>: the low 32 bits of the number, read as a signed C \<open>int\<close>;
  0 when the value is not an integer.\<close>

fun yyjson_get_int :: "json option \<Rightarrow> int" where
  "yyjson_get_int (Some (JInt n)) = sint (word_of_int n :: 32 word)"
| "yyjson_get_int _ = 0"

fun yyjson_get_str :: "json option \<Rightarrow> string" where
  "yyjson_get_str (Some (JStr s)) = s"
| "yyjson_get_str _ = []"

text \<open>\<^verbatim>\<open>strdup\<close> copies a C string: the bytes before the first NUL byte.\<close>

definition strdup :: "string \<Rightarrow> string" where
  "strdup s = takeWhile (\<lambda>ch. ch \<noteq> CHR 0x00) s"

text \<open>
  The reader \<^verbatim>\<open>yyjson_read_opts(buf, len, YYJSON_READ_STOP_WHEN_DONE, ...)\<close> together with
  \<^verbatim>\<open>yyjson_doc_get_read_size\<close> is a parameter of the model: given the \<open>len\<close> bytes it is
  shown, it answers NULL or a document and the number of bytes it consumed. The writer
  \<^verbatim>\<open>yyjson_mut_write\<close> is a parameter too: the text of a document, or NULL.
\<close>

type_synonym reader = "string \<Rightarrow> (json \<times> nat) option"
type_synonym writer = "json \<Rightarrow> string option"

subsection \<open>A reader and a writer for flat objects\<close>

text \<open>
  To run the model on concrete bytes the two parameters are instantiated with a small
  reader and writer. \<open>flat_read\<close> reads, in stop-when-done mode, an object whose keys
  and string values are printable ASCII without escapes and whose other values are
  integers, \<open>true\<close>, \<open>false\<close> or \<open>null\<close>; it skips white space before the object, stops
  at the closing brace and counts every byte up to it. Anything else it rejects. An
  integer outside the 64-bit range is a real number, as in yyjson.
\<close>

definition is_space :: "char \<Rightarrow> bool" where
  "is_space ch \<longleftrightarrow> ch = CHR 0x20 \<or> ch = CHR 0x09 \<or> ch = CHR 0x0A \<or> ch = CHR 0x0D"

definition is_digit :: "char \<Rightarrow> bool" where
  "is_digit ch \<longleftrightarrow> 48 \<le> (of_char ch :: nat) \<and> (of_char ch :: nat) \<le> 57"

definition digit_val :: "char \<Rightarrow> nat" where
  "digit_val ch = of_char ch - 48"

definition is_plain :: "char \<Rightarrow> bool" where
  "is_plain ch \<longleftrightarrow> 32 \<le> (of_char ch :: nat) \<and> (of_char ch :: nat) < 127
                   \<and> ch \<noteq> CHR 0x22 \<and> ch \<noteq> CHR 0x5C"

datatype rstate =
    RStart
  | RFirst "(string \<times> json) list"
  | RKey "(string \<times> json) list"
  | RInKey "(string \<times> json) list" string
  | RColon "(string \<times> json) list" string
  | RValue "(string \<times> json) list" string
  | RInStr "(string \<times> json) list" string string
  | RSign "(string \<times> json) list" string
  | RZero "(string \<times> json) list" string
  | RInNum "(string \<times> json) list" string bool nat
  | RLit "(string \<times> json) list" string string json
  | RNext "(string \<times> json) list"

datatype rstep = Go rstate | Done json | Bad

definition finish_num :: "bool \<Rightarrow> nat \<Rightarrow> json" where
  "finish_num neg n =
     (if neg then (if n \<le> 2 ^ 63 then JInt (- int n) else JReal)
      else (if n < 2 ^ 64 then JInt (int n) else JReal))"

definition after_value :: "(string \<times> json) list \<Rightarrow> char \<Rightarrow> rstep" where
  "after_value ms ch =
     (if is_space ch then Go (RNext ms)
      else if ch = CHR 0x2C then Go (RKey ms)
      else if ch = CHR 0x7D then Done (JObj ms)
      else Bad)"

fun rd_step :: "rstate \<Rightarrow> char \<Rightarrow> rstep" where
  "rd_step RStart ch =
     (if is_space ch then Go RStart else if ch = CHR 0x7B then Go (RFirst []) else Bad)"
| "rd_step (RFirst ms) ch =
     (if is_space ch then Go (RFirst ms)
      else if ch = CHR 0x22 then Go (RInKey ms [])
      else if ch = CHR 0x7D then Done (JObj ms)
      else Bad)"
| "rd_step (RKey ms) ch =
     (if is_space ch then Go (RKey ms) else if ch = CHR 0x22 then Go (RInKey ms []) else Bad)"
| "rd_step (RInKey ms k) ch =
     (if ch = CHR 0x22 then Go (RColon ms k)
      else if is_plain ch then Go (RInKey ms (k @ [ch]))
      else Bad)"
| "rd_step (RColon ms k) ch =
     (if is_space ch then Go (RColon ms k) else if ch = CHR 0x3A then Go (RValue ms k) else Bad)"
| "rd_step (RValue ms k) ch =
     (if is_space ch then Go (RValue ms k)
      else if ch = CHR 0x22 then Go (RInStr ms k [])
      else if ch = CHR 0x2D then Go (RSign ms k)
      else if ch = CHR 0x30 then Go (RZero ms k)
      else if is_digit ch then Go (RInNum ms k False (digit_val ch))
      else if ch = CHR 0x74 then Go (RLit ms k ''rue'' (JBool True))
      else if ch = CHR 0x66 then Go (RLit ms k ''alse'' (JBool False))
      else if ch = CHR 0x6E then Go (RLit ms k ''ull'' JNull)
      else Bad)"
| "rd_step (RInStr ms k s) ch =
     (if ch = CHR 0x22 then Go (RNext (ms @ [(k, JStr s)]))
      else if is_plain ch then Go (RInStr ms k (s @ [ch]))
      else Bad)"
| "rd_step (RSign ms k) ch =
     (if ch = CHR 0x30 then Go (RZero ms k)
      else if is_digit ch then Go (RInNum ms k True (digit_val ch))
      else Bad)"
| "rd_step (RZero ms k) ch = after_value (ms @ [(k, JInt 0)]) ch"
| "rd_step (RInNum ms k neg n) ch =
     (if is_digit ch then Go (RInNum ms k neg (10 * n + digit_val ch))
      else after_value (ms @ [(k, finish_num neg n)]) ch)"
| "rd_step (RLit ms k rest v) ch =
     (case rest of
        [] \<Rightarrow> Bad
      | r # rs \<Rightarrow>
          if ch \<noteq> r then Bad
          else if rs = [] then Go (RNext (ms @ [(k, v)]))
          else Go (RLit ms k rs v))"
| "rd_step (RNext ms) ch = after_value ms ch"

fun rd_run :: "rstate \<Rightarrow> nat \<Rightarrow> string \<Rightarrow> (json \<times> nat) option" where
  "rd_run st n [] = None"
| "rd_run st n (ch # cs) =
     (case rd_step st ch of
        Go st' \<Rightarrow> rd_run st' (Suc n) cs
      | Done doc \<Rightarrow> Some (doc, Suc n)
      | Bad \<Rightarrow> None)"

definition flat_read :: reader where
  "flat_read bs = rd_run RStart 0 bs"

text \<open>\<open>flat_write\<close> prints a document without white space; it has no text for a real
  number. Strings are printed with the quote and the backslash escaped.\<close>

fun dec :: "nat \<Rightarrow> string" where
  "dec n = (if n < 10 then [char_of (48 + n)] else dec (n div 10) @ [char_of (48 + n mod 10)])"

definition quoted :: "string \<Rightarrow> string" where
  "quoted s =
     [CHR 0x22]
     @ concat (map (\<lambda>ch. if ch = CHR 0x22 \<or> ch = CHR 0x5C then [CHR 0x5C, ch] else [ch]) s)
     @ [CHR 0x22]"

fun sep_by :: "string \<Rightarrow> string list \<Rightarrow> string" where
  "sep_by sep [] = []"
| "sep_by sep [x] = x"
| "sep_by sep (x # y # ys) = x @ sep @ sep_by sep (y # ys)"

fun all_some :: "'a option list \<Rightarrow> 'a list option" where
  "all_some [] = Some []"
| "all_some (None # xs) = None"
| "all_some (Some x # xs) = map_option ((#) x) (all_some xs)"

fun flat_write :: writer where
  "flat_write JNull = Some ''null''"
| "flat_write (JBool b) = Some (if b then ''true'' else ''false'')"
| "flat_write (JInt n) = Some (if n < 0 then CHR 0x2D # dec (nat (- n)) else dec (nat n))"
| "flat_write JReal = None"
| "flat_write (JStr s) = Some (quoted s)"
| "flat_write (JArr vs) =
     map_option (\<lambda>ts. [CHR 0x5B] @ sep_by '','' ts @ [CHR 0x5D]) (all_some (map flat_write vs))"
| "flat_write (JObj kvs) =
     map_option (\<lambda>ts. [CHR 0x7B] @ sep_by '','' ts @ [CHR 0x7D])
       (all_some (map (\<lambda>(k, v). map_option (\<lambda>t. quoted k @ '':'' @ t) (flat_write v)) kvs))"

subsection \<open>The environment\<close>

text \<open>
  One entry of the socket's incoming stream: some bytes sent by the peer, the end of
  the stream, the expiry of the receive timeout (errno EAGAIN or EWOULDBLOCK), or any
  other read error.
\<close>

datatype rd_event = Chunk string | Closed | Timeout | Failure

text \<open>The diagnostics the client prints on stderr, one constructor per message.\<close>

datatype diag =
    FatalError
  | InvalidArguments
  | SocketNotConnected
  | SocketWriteFailed
  | ReadBufferOverflow
  | ConnectionClosedByPeer
  | ReadTimeout
  | ReadError
  | NoValidExitCode
  | ReconnectFailed
  | SocketDisconnected
  | Reconnected
  | ProactiveRefresh "32 word"
  | CouldNotConnect
  | CloseFailed

datatype event =
    SysSocket
  | SysConnect int string
  | SysSetsockopt int
  | SysClose int
  | SysWritev int string
  | SysRead int nat
  | SysFree
  | Stderr diag

text \<open>The answers of the operating system to the calls of one operation.\<close>

record env =
  socket_ret :: int
  connect_ret :: int
  close_ret :: int
  writev_ret :: int
  default_path :: "string option"

text \<open>A function either returns to its caller or ends the process (\<^verbatim>\<open>fatal_error\<close>).\<close>

datatype 'a call = Returns 'a | Exits

subsection \<open>Connecting\<close>

text \<open>\<^verbatim>\<open>get_default_socket_path\<close>: the path built from the user's name, or a fatal error
  when no user information is found. The lookup itself is the environment's.\<close>

definition get_default_socket_path :: "env \<Rightarrow> string call" where
  "get_default_socket_path e =
     (case default_path e of None \<Rightarrow> Exits | Some path \<Rightarrow> Returns path)"

text \<open>\<^verbatim>\<open>connect_socket\<close>: the descriptor on success, -1 on failure.\<close>

definition connect_socket :: "env \<Rightarrow> string \<Rightarrow> int \<times> event list" where
  "connect_socket e path =
     (let s = socket_ret e in
      if s < 0 then (- 1, [SysSocket])
      else if connect_ret e < 0 then (- 1, [SysSocket, SysConnect s path, SysClose s])
      else (s, [SysSocket, SysConnect s path, SysSetsockopt s]))"

text \<open>\<^verbatim>\<open>reconnect\<close>: closes the descriptor held, clears the buffer length and the counter,
  and connects again. Returns 1 on success, 0 on failure.\<close>

definition reconnect :: "env \<Rightarrow> aerospace option \<Rightarrow> int \<times> aerospace option \<times> event list" where
  "reconnect e client =
     (case client of
        None \<Rightarrow> (0, None, [])
      | Some c \<Rightarrow>
          (case socket_path c of
             None \<Rightarrow> (0, Some c, [])
           | Some path \<Rightarrow>
               (let evs1 = (if fd c \<ge> 0 then [SysClose (fd c)] else []);
                    (nfd, evs2) = connect_socket e path;
                    c' = c\<lparr>fd := nfd, read_buf_len := 0, command_count := 0\<rparr>
                in if nfd < 0 then (0, Some c', evs1 @ evs2 @ [Stderr ReconnectFailed])
                   else (1, Some c', evs1 @ evs2))))"

text \<open>\<^verbatim>\<open>aerospace_new\<close>: the fresh client; \<open>mem\<close> is the content of the memory \<^verbatim>\<open>malloc\<close>
  returned for the buffer, which the function leaves as it is.\<close>

definition aerospace_new :: "env \<Rightarrow> (nat \<Rightarrow> char) \<Rightarrow> string option \<Rightarrow> (aerospace \<times> event list) call" where
  "aerospace_new e mem socketPath =
     (case (case socketPath of Some p \<Rightarrow> Returns (strdup p) | None \<Rightarrow> get_default_socket_path e) of
        Exits \<Rightarrow> Exits
      | Returns path \<Rightarrow>
          (let (nfd, evs) = connect_socket e path;
               c = \<lparr>fd = nfd, socket_path = Some path, read_buf = mem,
                    read_buf_len = 0, command_count = 0\<rparr>
           in Returns (c, evs @ (if nfd < 0 then [Stderr CouldNotConnect] else []))))"

text \<open>The value of \<^verbatim>\<open>client->fd >= 0\<close> as a C \<open>int\<close>.\<close>

definition fd_held :: "aerospace \<Rightarrow> int" where
  "fd_held c = (if fd c \<ge> 0 then 1 else 0)"

text \<open>\<^verbatim>\<open>aerospace_ensure_connected\<close>: 1 when a descriptor is held at the end, else 0.\<close>

definition aerospace_ensure_connected :: "env \<Rightarrow> aerospace option \<Rightarrow> int \<times> aerospace option \<times> event list" where
  "aerospace_ensure_connected e client =
     (case client of
        None \<Rightarrow> (0, None, [])
      | Some c \<Rightarrow>
          if fd c < 0 then
            (case reconnect e (Some c) of
               (ok, Some c', evs) \<Rightarrow>
                 (fd_held c', Some c',
                  [Stderr SocketDisconnected] @ evs @ (if ok \<noteq> 0 then [Stderr Reconnected] else []))
             | (ok, None, evs) \<Rightarrow> (0, None, evs))
          else if command_count c \<ge> AEROSPACE_RECONNECT_INTERVAL then
            (case reconnect e (Some c) of
               (ok, Some c', evs) \<Rightarrow>
                 (fd_held c', Some c', [Stderr (ProactiveRefresh (command_count c))] @ evs)
             | (ok, None, evs) \<Rightarrow> (0, None, evs))
          else (fd_held c, Some c, []))"

text \<open>\<^verbatim>\<open>aerospace_close\<close>: closes the descriptor held, if any, and frees the path and the
  client; nothing is left of the client afterwards. With a NULL client it does nothing.\<close>

definition aerospace_close :: "env \<Rightarrow> aerospace option \<Rightarrow> aerospace option \<times> event list" where
  "aerospace_close e client =
     (case client of
        None \<Rightarrow> (None, [])
      | Some c \<Rightarrow>
          (None,
           (if fd c \<ge> 0
            then SysClose (fd c) # (if close_ret e < 0 then [Stderr CloseFailed] else [])
            else [])
           @ [SysFree, SysFree]))"

subsection \<open>The socket and the buffer\<close>

text \<open>
  \<^verbatim>\<open>read(fd, p, count)\<close> on the stream socket: the return value, the bytes stored at
  \<open>p\<close>, whether a failure was the expiry of the receive timeout, and the stream that is
  left. At most \<open>count\<close> bytes of the first chunk are delivered; the rest of the chunk
  stays in the stream. When the peer sends nothing the receive timeout of
  \<open>SOCKET_TIMEOUT_SECS\<close> seconds expires.
\<close>

fun sys_read :: "nat \<Rightarrow> rd_event list \<Rightarrow> int \<times> string \<times> bool \<times> rd_event list" where
  "sys_read count [] = (- 1, [], True, [])"
| "sys_read count (Chunk bs # rest) =
     (if length bs \<le> count then (int (length bs), bs, False, rest)
      else (int count, take count bs, False, Chunk (drop count bs) # rest))"
| "sys_read count (Closed # rest) = (0, [], False, rest)"
| "sys_read count (Timeout # rest) = (- 1, [], True, rest)"
| "sys_read count (Failure # rest) = (- 1, [], False, rest)"

text \<open>Storing the bytes \<open>bs\<close> in an array from index \<open>off\<close> on.\<close>

definition store :: "(nat \<Rightarrow> char) \<Rightarrow> nat \<Rightarrow> string \<Rightarrow> (nat \<Rightarrow> char)" where
  "store buf off bs = (\<lambda>i. if off \<le> i \<and> i < off + length bs then bs ! (i - off) else buf i)"

text \<open>\<^verbatim>\<open>memmove(buf, buf + k, n)\<close>.\<close>

definition memmove_front :: "(nat \<Rightarrow> char) \<Rightarrow> nat \<Rightarrow> nat \<Rightarrow> (nat \<Rightarrow> char)" where
  "memmove_front buf k n = (\<lambda>i. if i < n then buf (i + k) else buf i)"

subsection \<open>Executing a command\<close>

text \<open>
  The request built in lines 142 to 151 of \<^verbatim>\<open>execute_aerospace_command\<close>. The function
  reads \<^verbatim>\<open>args[0]\<close> to \<^verbatim>\<open>args[arg_count - 1]\<close>; its callers pass the length of the
  array as \<open>arg_count\<close>.
\<close>

definition envelope :: "string list \<Rightarrow> int \<Rightarrow> string option \<Rightarrow> json" where
  "envelope args arg_count stdin_payload =
     JObj [(''command'', JStr (args ! 0)),
           (''stdin'', JStr (case stdin_payload of Some s \<Rightarrow> s | None \<Rightarrow> [])),
           (''args'', JArr (map (\<lambda>i. JStr (args ! i)) [0..<nat arg_count]))]"

text \<open>How the loop of lines 182 to 210 ends.\<close>

datatype loop_exit = Parsed json nat | Overflowed | ReadFailed

text \<open>One pass through the body of the loop either leaves the loop or goes round again,
  with the client, the stream that is left and the events so far.\<close>

datatype loop_step =
    Exit loop_exit aerospace "rd_event list" "event list"
  | Continue aerospace "rd_event list" "event list"

text \<open>The body of \<^verbatim>\<open>while (true)\<close>, lines 183 to 209.\<close>

definition loop_body :: "reader \<Rightarrow> aerospace \<Rightarrow> rd_event list \<Rightarrow> event list \<Rightarrow> loop_step" where
  "loop_body P c inbox evs =
     (case (if read_buf_len c > 0 then P (buffered c) else None) of
        Some (resp_doc, parsed_bytes) \<Rightarrow> Exit (Parsed resp_doc parsed_bytes) c inbox evs
      | None \<Rightarrow>
          if read_buf_len c \<ge> READ_BUFFER_SIZE
          then Exit Overflowed (c\<lparr>read_buf_len := 0\<rparr>) inbox (evs @ [Stderr ReadBufferOverflow])
          else
            (case sys_read (READ_BUFFER_SIZE - read_buf_len c) inbox of
               (bytes_read, data, timed_out, inbox') \<Rightarrow>
                 if bytes_read \<le> 0
                 then Exit ReadFailed (c\<lparr>fd := - 1, read_buf_len := 0\<rparr>) inbox'
                        (evs @ [SysRead (fd c) (READ_BUFFER_SIZE - read_buf_len c),
                                Stderr (if bytes_read = 0 then ConnectionClosedByPeer
                                        else if timed_out then ReadTimeout else ReadError),
                                SysClose (fd c)])
                 else Continue
                        (c\<lparr>read_buf := store (read_buf c) (read_buf_len c) data,
                           read_buf_len := read_buf_len c + nat bytes_read\<rparr>)
                        inbox'
                        (evs @ [SysRead (fd c) (READ_BUFFER_SIZE - read_buf_len c)])))"

text \<open>The loop: the body is repeated until it leaves. Every pass that goes round again
  has put at least one more byte into the buffer, so the loop ends.\<close>

function read_loop ::
  "reader \<Rightarrow> aerospace \<Rightarrow> rd_event list \<Rightarrow> event list
   \<Rightarrow> loop_exit \<times> aerospace \<times> rd_event list \<times> event list" where
  "read_loop P c inbox evs =
     (case loop_body P c inbox evs of
        Exit x c' inbox' evs' \<Rightarrow> (x, c', inbox', evs')
      | Continue c' inbox' evs' \<Rightarrow> read_loop P c' inbox' evs')"
  by pat_completeness auto
termination
  by (relation "measure (\<lambda>(P, c, inbox, evs). READ_BUFFER_SIZE - read_buf_len c)")
     (auto simp: loop_body_def split: option.splits if_splits prod.splits)

declare read_loop.simps [simp del]

text \<open>The states at the top of the loop that a run of the loop passes through.\<close>

inductive loop_reaches ::
  "reader \<Rightarrow> aerospace \<times> rd_event list \<times> event list
   \<Rightarrow> aerospace \<times> rd_event list \<times> event list \<Rightarrow> bool" for P where
  here: "loop_reaches P s s"
| round: "loop_reaches P s (c, inbox, evs) \<Longrightarrow> loop_body P c inbox evs = Continue c' inbox' evs'
          \<Longrightarrow> loop_reaches P s (c', inbox', evs')"

text \<open>
  Lines 212 to 215: the bytes after the document move to the front and the length
  drops by \<open>parsed_bytes\<close>; the subtraction is that of \<open>size_t\<close>, modulo \<open>2 ^ 64\<close>.
\<close>

definition compact :: "aerospace \<Rightarrow> nat \<Rightarrow> aerospace" where
  "compact c parsed_bytes =
     c\<lparr>read_buf :=
         (if read_buf_len c > parsed_bytes
          then memmove_front (read_buf c) parsed_bytes (read_buf_len c - parsed_bytes)
          else read_buf c),
       read_buf_len := (read_buf_len c + 2 ^ 64 - parsed_bytes) mod 2 ^ 64\<rparr>"

text \<open>Lines 217 to 242: the string returned for a parsed response, and what is printed.\<close>

definition extract_result :: "json \<Rightarrow> string option \<Rightarrow> string option \<times> event list" where
  "extract_result resp_root expected_output_field =
     (let exitCodeItem = yyjson_obj_get resp_root ''exitCode'' in
      if yyjson_is_int exitCodeItem then
        (let exitCode = yyjson_get_int exitCodeItem in
         if exitCode \<noteq> 0 then
           (let output_item = yyjson_obj_get resp_root ''stderr'' in
            if yyjson_is_str output_item
            then (Some (strdup (yyjson_get_str output_item)), [])
            else (None, []))
         else
           (case expected_output_field of
              Some field \<Rightarrow>
                (let output_item = yyjson_obj_get resp_root field in
                 if yyjson_is_str output_item
                 then (Some (strdup (yyjson_get_str output_item)), [])
                 else (None, []))
            | None \<Rightarrow> (None, [])))
      else (None, [Stderr NoValidExitCode]))"

text \<open>
  \<^verbatim>\<open>execute_aerospace_command\<close>: the string returned (\<open>None\<close> is NULL), the client, the
  stream left and the events of the call.
\<close>

definition execute_aerospace_command ::
  "reader \<Rightarrow> writer \<Rightarrow> env \<Rightarrow> aerospace option \<Rightarrow> string list option \<Rightarrow> int
   \<Rightarrow> string option \<Rightarrow> string option \<Rightarrow> rd_event list
   \<Rightarrow> string option call \<times> aerospace option \<times> rd_event list \<times> event list" where
  "execute_aerospace_command P W e client args arg_count stdin_payload expected_output_field inbox =
     (case (client, args) of
        (Some c, Some as) \<Rightarrow>
          if arg_count = 0 then (Returns None, client, inbox, [Stderr InvalidArguments])
          else if fd c < 0 then (Returns None, client, inbox, [Stderr SocketNotConnected])
          else
            (case W (envelope as arg_count stdin_payload) of
               None \<Rightarrow> (Exits, client, inbox, [Stderr FatalError])
             | Some json_str \<Rightarrow>
                 if writev_ret e < 0
                 then (Returns None, Some (c\<lparr>fd := - 1, read_buf_len := 0\<rparr>), inbox,
                       [SysWritev (fd c) (json_str @ [CHR 0x0A]), Stderr SocketWriteFailed,
                        SysClose (fd c)])
                 else
                   (case read_loop P (c\<lparr>command_count := command_count c + 1\<rparr>) inbox
                           [SysWritev (fd c) (json_str @ [CHR 0x0A])] of
                      (Parsed resp_doc parsed_bytes, c', inbox', evs) \<Rightarrow>
                        (let (result, evs') = extract_result resp_doc expected_output_field
                         in (Returns result, Some (compact c' parsed_bytes), inbox', evs @ evs'))
                    | (Overflowed, c', inbox', evs) \<Rightarrow> (Returns None, Some c', inbox', evs)
                    | (ReadFailed, c', inbox', evs) \<Rightarrow> (Returns None, Some c', inbox', evs)))
      | _ \<Rightarrow> (Returns None, client, inbox, [Stderr InvalidArguments]))"

subsection \<open>The commands\<close>

text \<open>\<^verbatim>\<open>aerospace_workspace\<close>: the arguments \<open>workspace\<close> and \<open>ws_command\<close>, with
  \<open>--wrap-around\<close> appended when \<open>wrap_around\<close> is not 0; no success field.\<close>

definition aerospace_workspace ::
  "reader \<Rightarrow> writer \<Rightarrow> env \<Rightarrow> aerospace option \<Rightarrow> int \<Rightarrow> string \<Rightarrow> string option
   \<Rightarrow> rd_event list \<Rightarrow> string option call \<times> aerospace option \<times> rd_event list \<times> event list" where
  "aerospace_workspace P W e client wrap_around ws_command stdin_payload inbox =
     (if wrap_around \<noteq> 0
      then execute_aerospace_command P W e client
             (Some [''workspace'', ws_command, ''--wrap-around'']) 3 stdin_payload None inbox
      else execute_aerospace_command P W e client
             (Some [''workspace'', ws_command]) 2 stdin_payload None inbox)"

text \<open>\<^verbatim>\<open>aerospace_switch\<close>: \<^verbatim>\<open>aerospace_workspace\<close> without wrap-around, with an empty input.\<close>

definition aerospace_switch ::
  "reader \<Rightarrow> writer \<Rightarrow> env \<Rightarrow> aerospace option \<Rightarrow> string
   \<Rightarrow> rd_event list \<Rightarrow> string option call \<times> aerospace option \<times> rd_event list \<times> event list" where
  "aerospace_switch P W e client direction inbox =
     aerospace_workspace P W e client 0 direction (Some []) inbox"

text \<open>\<^verbatim>\<open>aerospace_list_workspaces\<close>: the workspaces of the focused monitor, all of them or
  those that are not empty; the success field is \<open>stdout\<close>.\<close>

definition aerospace_list_workspaces ::
  "reader \<Rightarrow> writer \<Rightarrow> env \<Rightarrow> aerospace option \<Rightarrow> bool
   \<Rightarrow> rd_event list \<Rightarrow> string option call \<times> aerospace option \<times> rd_event list \<times> event list" where
  "aerospace_list_workspaces P W e client include_empty inbox =
     (if include_empty
      then execute_aerospace_command P W e client
             (Some [''list-workspaces'', ''--monitor'', ''focused'']) 3 (Some []) (Some ''stdout'') inbox
      else execute_aerospace_command P W e client
             (Some [''list-workspaces'', ''--monitor'', ''focused'', ''--empty'', ''no'']) 5
             (Some []) (Some ''stdout'') inbox)"

subsection \<open>Notions used in the statements\<close>

text \<open>What the client relies on from the reader: it never reports more bytes consumed
  than it was shown.\<close>

definition reader_bounded :: "reader \<Rightarrow> bool" where
  "reader_bounded P \<longleftrightarrow> (\<forall>bs doc k. P bs = Some (doc, k) \<longrightarrow> k \<le> length bs)"

text \<open>The events that are calls of \<^verbatim>\<open>read\<close>.\<close>

fun is_read :: "event \<Rightarrow> bool" where
  "is_read (SysRead f n) = True"
| "is_read _ = False"

subsection \<open>The states of a client\<close>

text \<open>
  The clients a program can hold: the one \<^verbatim>\<open>aerospace_new\<close> returns, and the one left by
  any public operation that returns, in any environment and with any incoming stream,
  on a client it can hold. After \<^verbatim>\<open>aerospace_close\<close> there is no client.
\<close>

inductive reachable :: "reader \<Rightarrow> writer \<Rightarrow> aerospace option \<Rightarrow> bool" for P W where
  created:
    "aerospace_new e mem socketPath = Returns (c, evs) \<Longrightarrow> reachable P W (Some c)"
| ensured:
    "reachable P W (Some c) \<Longrightarrow> aerospace_ensure_connected e (Some c) = (r, client', evs)
     \<Longrightarrow> reachable P W client'"
| switched:
    "reachable P W (Some c)
     \<Longrightarrow> aerospace_switch P W e (Some c) direction inbox = (Returns res, client', inbox', evs)
     \<Longrightarrow> reachable P W client'"
| moved:
    "reachable P W (Some c)
     \<Longrightarrow> aerospace_workspace P W e (Some c) wrap_around ws_command stdin_payload inbox
         = (Returns res, client', inbox', evs)
     \<Longrightarrow> reachable P W client'"
| listed:
    "reachable P W (Some c)
     \<Longrightarrow> aerospace_list_workspaces P W e (Some c) include_empty inbox
         = (Returns res, client', inbox', evs)
     \<Longrightarrow> reachable P W client'"
| closed:
    "reachable P W (Some c) \<Longrightarrow> aerospace_close e (Some c) = (client', evs)
     \<Longrightarrow> reachable P W client'"

text \<open>What holds of every such client.\<close>

definition client_ok :: "aerospace \<Rightarrow> bool" where
  "client_ok c \<longleftrightarrow>
     read_buf_len c \<le> READ_BUFFER_SIZE \<and> (fd c < 0 \<longrightarrow> read_buf_len c = 0)
     \<and> socket_path c \<noteq> None"

subsection \<open>Several responses in one stream\<close>

text \<open>
  The bytes \<open>enc\<close> are a framed document \<open>doc\<close> for a reader when the reader, in
  stop-when-done mode, finds \<open>doc\<close> in \<open>enc\<close> followed by anything, consuming exactly
  \<open>enc\<close>, and finds nothing in a part of \<open>enc\<close> that stops short of its end. A JSON
  object is such a document, with the white space before it.
\<close>

definition framed :: "reader \<Rightarrow> string \<Rightarrow> json \<Rightarrow> bool" where
  "framed P enc doc \<longleftrightarrow>
     enc \<noteq> [] \<and> (\<forall>rest. P (enc @ rest) = Some (doc, length enc))
     \<and> (\<forall>n. 0 < n \<and> n < length enc \<longrightarrow> P (take n enc) = None)"

text \<open>The same command executed \<open>m\<close> times in a row on one client and one stream: the
  results of the calls in order, the client and the stream at the end.\<close>

fun execute_times ::
  "reader \<Rightarrow> writer \<Rightarrow> env \<Rightarrow> string list option \<Rightarrow> int \<Rightarrow> string option \<Rightarrow> string option
   \<Rightarrow> nat \<Rightarrow> aerospace option \<Rightarrow> rd_event list
   \<Rightarrow> string option call list \<times> aerospace option \<times> rd_event list" where
  "execute_times P W e args arg_count stdin_payload field 0 client inbox = ([], client, inbox)"
| "execute_times P W e args arg_count stdin_payload field (Suc m) client inbox =
     (case execute_aerospace_command P W e client args arg_count stdin_payload field inbox of
        (r, client', inbox', evs) \<Rightarrow>
          (case execute_times P W e args arg_count stdin_payload field m client' inbox' of
             (rs, client'', inbox'') \<Rightarrow> (r # rs, client'', inbox'')))"

subsection \<open>Sample values\<close>

text \<open>An environment in which every system call succeeds, a connected client with an
  empty buffer, that client after one command whose answer never came, and a client
  without a socket.\<close>

definition calm_env :: env where
  "calm_env = \<lparr>socket_ret = 4, connect_ret = 0, close_ret = 0, writev_ret = 62,
                default_path = Some ''/tmp/bobko.aerospace-me.sock''\<rparr>"

definition up_client :: aerospace where
  "up_client = \<lparr>fd = 3, socket_path = Some ''/tmp/bobko.aerospace-me.sock'',
                 read_buf = (\<lambda>i. CHR 0x00), read_buf_len = 0, command_count = 0\<rparr>"

definition dropped_client :: aerospace where
  "dropped_client = up_client\<lparr>fd := - 1, command_count := 1\<rparr>"

text \<open>A response of 8218 bytes, and the document it holds.\<close>

definition long_response :: string where
  "long_response = ''{\"exitCode\":0,\"stdout\":\"'' @ replicate 8192 (CHR ''a'') @ ''\"}''"

definition long_document :: json where
  "long_document = JObj [(''exitCode'', JInt 0), (''stdout'', JStr (replicate 8192 (CHR ''a'')))]"

definition down_client :: aerospace where
  "down_client = up_client\<lparr>fd := - 1\<rparr>"

section \<open>Properties of the read loop\<close>

lemma sys_read_result:
  "sys_read n inbox = (r, data, t, inbox') \<Longrightarrow>
     r \<le> int n \<and> - 1 \<le> r \<and> (0 < r \<longrightarrow> nat r = length data) \<and> (r \<le> 0 \<longrightarrow> data = [])"
  by (cases "(n, inbox)" rule: sys_read.cases) (auto split: if_splits)

lemma loop_body_Continue:
  assumes "loop_body P c inbox evs = Continue c' inbox' evs'"
  shows "command_count c' = command_count c" "fd c' = fd c" "socket_path c' = socket_path c"
    "read_buf_len c < read_buf_len c'" "read_buf_len c' \<le> READ_BUFFER_SIZE"
    "\<forall>i \<ge> READ_BUFFER_SIZE. read_buf c' i = read_buf c i"
  using assms
  by (auto simp: loop_body_def store_def split: option.splits if_splits prod.splits
           dest!: sys_read_result)

lemma loop_body_Exit:
  assumes "loop_body P c inbox evs = Exit x c' inbox' evs'"
  shows "command_count c' = command_count c" "socket_path c' = socket_path c" "read_buf c' = read_buf c"
    "case x of Parsed d k \<Rightarrow> c' = c \<and> 0 < read_buf_len c \<and> P (buffered c) = Some (d, k) \<and> inbox' = inbox \<and> evs' = evs
             | Overflowed \<Rightarrow> c' = c\<lparr>read_buf_len := 0\<rparr> \<and> READ_BUFFER_SIZE \<le> read_buf_len c \<and> inbox' = inbox
                             \<and> evs' = evs @ [Stderr ReadBufferOverflow]
             | ReadFailed \<Rightarrow> c' = c\<lparr>fd := - 1, read_buf_len := 0\<rparr> \<and> read_buf_len c < READ_BUFFER_SIZE
                             \<and> fst (sys_read (READ_BUFFER_SIZE - read_buf_len c) inbox) \<le> 0
                             \<and> (\<exists>d. evs' = evs @ [SysRead (fd c) (READ_BUFFER_SIZE - read_buf_len c), Stderr d, SysClose (fd c)])"
  using assms
  by (auto simp: loop_body_def split: option.splits if_splits prod.splits)

lemma read_loop_reaches:
  "read_loop P c inbox evs = (x, c', inbox', evs') \<Longrightarrow>
     \<exists>c1 inbox1 evs1. loop_reaches P (c, inbox, evs) (c1, inbox1, evs1)
        \<and> loop_body P c1 inbox1 evs1 = Exit x c' inbox' evs'"
proof (induction P c inbox evs rule: read_loop.induct)
  case (1 P c inbox evs)
  show ?case
  proof (cases "loop_body P c inbox evs")
    case (Exit x1 c1 i1 e1)
    with "1.prems" have "loop_body P c inbox evs = Exit x c' inbox' evs'"
      by (simp add: read_loop.simps [of P c])
    then show ?thesis using loop_reaches.here by blast
  next
    case (Continue c1 i1 e1)
    with "1.prems" have "read_loop P c1 i1 e1 = (x, c', inbox', evs')"
      by (simp add: read_loop.simps [of P c])
    from "1.IH" [OF Continue this] obtain c2 i2 e2 where
      r: "loop_reaches P (c1, i1, e1) (c2, i2, e2)" and x: "loop_body P c2 i2 e2 = Exit x c' inbox' evs'"
      by blast
    have "loop_reaches P (c, inbox, evs) (c1, i1, e1)"
      using loop_reaches.round [OF loop_reaches.here Continue] .
    moreover have "loop_reaches P s (c1, i1, e1) \<Longrightarrow> loop_reaches P s (c2, i2, e2)" for s
      using r by (induction "(c1, i1, e1)" "(c2, i2, e2)" arbitrary: c2 i2 e2 rule: loop_reaches.induct)
                 (auto intro: loop_reaches.round)
    ultimately show ?thesis using x by blast
  qed
qed

lemma loop_reaches_read_loop:
  "loop_reaches P s s' \<Longrightarrow> (case s of (c, i, e) \<Rightarrow> read_loop P c i e) = (case s' of (c, i, e) \<Rightarrow> read_loop P c i e)"
proof (induction rule: loop_reaches.induct)
  case (here s)
  show ?case by simp
next
  case (round s c inbox evs c' inbox' evs')
  then show ?case by (simp add: read_loop.simps [of P c inbox evs])
qed

lemma loop_reaches_frame:
  "loop_reaches P s s' \<Longrightarrow>
     command_count (fst s') = command_count (fst s) \<and> fd (fst s') = fd (fst s)
     \<and> socket_path (fst s') = socket_path (fst s)
     \<and> read_buf_len (fst s) \<le> read_buf_len (fst s')
     \<and> (read_buf_len (fst s) \<le> READ_BUFFER_SIZE \<longrightarrow> read_buf_len (fst s') \<le> READ_BUFFER_SIZE)
     \<and> (\<forall>i \<ge> READ_BUFFER_SIZE. read_buf (fst s') i = read_buf (fst s) i)"
proof (induction rule: loop_reaches.induct)
  case (here s)
  show ?case by simp
next
  case (round s c inbox evs c' inbox' evs')
  from loop_body_Continue [OF round.hyps(2)] round.IH show ?case by simp
qed

lemma loop_body_Continue_events:
  "loop_body P c inbox evs = Continue c' inbox' evs' \<Longrightarrow> \<exists>n. evs' = evs @ [SysRead (fd c) n]"
  by (auto simp: loop_body_def split: option.splits if_splits prod.splits)

lemma loop_reaches_events:
  "loop_reaches P s s' \<Longrightarrow> \<exists>rs. snd (snd s') = snd (snd s) @ rs \<and> list_all is_read rs"
proof (induction rule: loop_reaches.induct)
  case (here s)
  show ?case by simp
next
  case (round s c inbox evs c' inbox' evs')
  from round.IH obtain rs where rs: "evs = snd (snd s) @ rs" "list_all is_read rs" by auto
  from loop_body_Continue_events [OF round.hyps(2)] obtain n where "evs' = evs @ [SysRead (fd c) n]" ..
  with rs have "evs' = snd (snd s) @ (rs @ [SysRead (fd c) n]) \<and> list_all is_read (rs @ [SysRead (fd c) n])"
    by simp
  then show ?case by (metis snd_conv)
qed

lemma read_loop_at_exit:
  assumes "loop_reaches P (c, inbox, evs) (c1, inbox1, evs1)"
    and "loop_body P c1 inbox1 evs1 = Exit x c' inbox' evs'"
  shows "read_loop P c inbox evs = (x, c', inbox', evs')"
  using loop_reaches_read_loop [OF assms(1)] assms(2)
  by (simp add: read_loop.simps [of P c1 inbox1 evs1])

lemma read_loop_count:
  assumes "read_loop P c inbox evs = (x, c', inbox', evs')"
  shows "command_count c' = command_count c"
proof -
  from read_loop_reaches [OF assms] obtain c1 i1 e1 where
    r: "loop_reaches P (c, inbox, evs) (c1, i1, e1)" and x: "loop_body P c1 i1 e1 = Exit x c' inbox' evs'"
    by blast
  from loop_reaches_frame [OF r] loop_body_Exit(1) [OF x] show ?thesis by simp
qed

lemma compact_frame:
  "command_count (compact c k) = command_count c" "fd (compact c k) = fd c"
  "socket_path (compact c k) = socket_path c"
  by (simp_all add: compact_def)

section \<open>Properties of the buffer\<close>

lemma buffer_size_small: "READ_BUFFER_SIZE < 2 ^ 64"
  by (simp add: READ_BUFFER_SIZE_def)

lemma size_t_sub:
  fixes a k :: nat
  assumes "k \<le> a" and "a < 2 ^ 64"
  shows "(a + 2 ^ 64 - k) mod 2 ^ 64 = a - k"
proof -
  have "a + 2 ^ 64 - k = (a - k) + 2 ^ 64"
    using assms(1) by (rule Nat.diff_add_assoc2)
  moreover have "a - k < 2 ^ 64"
    using assms(2) by (rule less_imp_diff_less)
  ultimately show ?thesis
    by (simp only: mod_add_self2 mod_less)
qed

lemma compact_len:
  assumes "k \<le> read_buf_len c" and "read_buf_len c \<le> READ_BUFFER_SIZE"
  shows "read_buf_len (compact c k) = read_buf_len c - k"
proof -
  have "read_buf_len c < 2 ^ 64"
    using assms(2) buffer_size_small by (rule le_less_trans)
  from size_t_sub [OF assms(1) this] show ?thesis
    by (simp add: compact_def)
qed

lemma buffered_length [simp]: "length (buffered c) = read_buf_len c"
  by (simp add: buffered_def)

lemma buffered_nth: "i < read_buf_len c \<Longrightarrow> buffered c ! i = read_buf c i"
  by (simp add: buffered_def)

lemma buffered_empty: "read_buf_len c = 0 \<Longrightarrow> buffered c = []"
  by (simp add: buffered_def)

lemma buffered_store:
  "buffered (c\<lparr>read_buf := store (read_buf c) (read_buf_len c) data,
              read_buf_len := read_buf_len c + length data\<rparr>) = buffered c @ data"
proof (rule nth_equalityI)
  show "length (buffered (c\<lparr>read_buf := store (read_buf c) (read_buf_len c) data,
              read_buf_len := read_buf_len c + length data\<rparr>)) = length (buffered c @ data)"
    by simp
next
  fix i
  assume "i < length (buffered (c\<lparr>read_buf := store (read_buf c) (read_buf_len c) data,
              read_buf_len := read_buf_len c + length data\<rparr>))"
  then have "i < read_buf_len c + length data" by simp
  then show "buffered (c\<lparr>read_buf := store (read_buf c) (read_buf_len c) data,
              read_buf_len := read_buf_len c + length data\<rparr>) ! i = (buffered c @ data) ! i"
    by (simp add: buffered_nth nth_append store_def)
qed

lemma buffered_compact:
  assumes "k \<le> read_buf_len c" and "read_buf_len c \<le> READ_BUFFER_SIZE"
  shows "buffered (compact c k) = drop k (buffered c)"
proof (rule nth_equalityI)
  show "length (buffered (compact c k)) = length (drop k (buffered c))"
    using compact_len [OF assms] by simp
next
  fix i assume "i < length (buffered (compact c k))"
  then have i: "i < read_buf_len c - k" using compact_len [OF assms] by simp
  then have lt: "k < read_buf_len c" by simp
  from i have "buffered (compact c k) ! i = read_buf (compact c k) i"
    using compact_len [OF assms] by (simp add: buffered_nth)
  also have "\<dots> = read_buf c (i + k)"
    using i lt by (simp add: compact_def memmove_front_def)
  also have "\<dots> = drop k (buffered c) ! i"
    using i assms(1) by (simp add: buffered_nth add.commute [of k i])
  finally show "buffered (compact c k) ! i = drop k (buffered c) ! i" .
qed

section \<open>Running the executor on a response\<close>

lemma loop_body_chunk:
  assumes "read_buf_len c = 0 \<or> P (buffered c) = None"
    and "read_buf_len c < READ_BUFFER_SIZE" and "bs \<noteq> []"
    and "length bs \<le> READ_BUFFER_SIZE - read_buf_len c"
  shows "loop_body P c (Chunk bs # rest) evs =
           Continue (c\<lparr>read_buf := store (read_buf c) (read_buf_len c) bs,
                       read_buf_len := read_buf_len c + length bs\<rparr>) rest
                    (evs @ [SysRead (fd c) (READ_BUFFER_SIZE - read_buf_len c)])"
  using assms by (auto simp: loop_body_def)

lemma loop_body_parsed:
  assumes "0 < read_buf_len c" and "P (buffered c) = Some (doc, k)"
  shows "loop_body P c inbox evs = Exit (Parsed doc k) c inbox evs"
  using assms by (simp add: loop_body_def)

lemma read_loop_one_chunk:
  assumes "read_buf_len c = 0" and "bs \<noteq> []" and "length bs \<le> READ_BUFFER_SIZE"
    and "P bs = Some (doc, k)"
  shows "read_loop P c (Chunk bs # rest) evs =
           (Parsed doc k,
            c\<lparr>read_buf := store (read_buf c) 0 bs, read_buf_len := length bs\<rparr>,
            rest, evs @ [SysRead (fd c) READ_BUFFER_SIZE])"
proof -
  let ?c' = "c\<lparr>read_buf := store (read_buf c) (read_buf_len c) bs,
                read_buf_len := read_buf_len c + length bs\<rparr>"
  have cap: "read_buf_len c < READ_BUFFER_SIZE"
    using assms(1) by (simp add: READ_BUFFER_SIZE_def)
  have step: "loop_body P c (Chunk bs # rest) evs =
      Continue ?c' rest (evs @ [SysRead (fd c) (READ_BUFFER_SIZE - read_buf_len c)])"
    using assms cap by (intro loop_body_chunk) simp_all
  have buf: "buffered ?c' = bs"
    using buffered_store [of c bs] assms(1) by (simp add: buffered_empty)
  have last: "loop_body P ?c' rest (evs @ [SysRead (fd c) (READ_BUFFER_SIZE - read_buf_len c)])
        = Exit (Parsed doc k) ?c' rest (evs @ [SysRead (fd c) (READ_BUFFER_SIZE - read_buf_len c)])"
    using assms buf by (intro loop_body_parsed) simp_all
  from read_loop_at_exit [OF loop_reaches.round [OF loop_reaches.here step] last]
  show ?thesis using assms(1) by simp
qed

lemma execute_one_chunk:
  assumes "0 \<le> fd c" and "arg_count \<noteq> 0"
    and "W (envelope as arg_count stdin_payload) = Some json_str" and "0 \<le> writev_ret e"
    and "read_buf_len c = 0" and "bs \<noteq> []" and "length bs \<le> READ_BUFFER_SIZE"
    and "P bs = Some (doc, k)"
  shows "execute_aerospace_command P W e (Some c) (Some as) arg_count stdin_payload field (Chunk bs # rest)
         = (Returns (fst (extract_result doc field)),
            Some (compact (c\<lparr>command_count := command_count c + 1,
                              read_buf := store (read_buf c) 0 bs, read_buf_len := length bs\<rparr>) k),
            rest,
            [SysWritev (fd c) (json_str @ [CHR 0x0A]), SysRead (fd c) READ_BUFFER_SIZE]
            @ snd (extract_result doc field))"
proof -
  have "read_loop P (c\<lparr>command_count := command_count c + 1\<rparr>) (Chunk bs # rest)
          [SysWritev (fd c) (json_str @ [CHR 0x0A])]
        = (Parsed doc k,
           c\<lparr>command_count := command_count c + 1\<rparr>
            \<lparr>read_buf := store (read_buf (c\<lparr>command_count := command_count c + 1\<rparr>)) 0 bs,
             read_buf_len := length bs\<rparr>,
           rest, [SysWritev (fd c) (json_str @ [CHR 0x0A])]
                 @ [SysRead (fd (c\<lparr>command_count := command_count c + 1\<rparr>)) READ_BUFFER_SIZE])"
    using assms by (intro read_loop_one_chunk) simp_all
  then show ?thesis
    using assms by (simp add: execute_aerospace_command_def split: prod.splits)
qed

lemmas rd_simps = flat_read_def is_space_def is_plain_def is_digit_def digit_val_def
  after_value_def finish_num_def

lemma flat_write_workspace_next:
  "flat_write (envelope [''workspace'', ''next''] 2 (Some [])) =
     Some ''{\"command\":\"workspace\",\"stdin\":\"\",\"args\":[\"workspace\",\"next\"]}''"
  by code_simp

lemma flat_read_not_object:
  "\<not> is_space ch \<Longrightarrow> ch \<noteq> CHR 0x7B \<Longrightarrow> flat_read (ch # t) = None"
  by (simp add: flat_read_def)

lemma replicate_8192: "replicate 8192 x = x # replicate 8191 x"
proof -
  have "(8192::nat) = Suc 8191" by simp
  then show ?thesis by (simp only: replicate_Suc)
qed

lemma reconnect_when_down:
  assumes "fd c < 0" and "socket_path c = Some path"
  shows "aerospace_ensure_connected e (Some c) =
           (let nfd = (if socket_ret e < 0 \<or> connect_ret e < 0 then - 1 else socket_ret e)
            in ((if 0 \<le> nfd then 1 else 0),
                Some (c\<lparr>fd := nfd, read_buf_len := 0, command_count := 0\<rparr>),
                [Stderr SocketDisconnected, SysSocket]
                @ (if socket_ret e < 0 then []
                   else if connect_ret e < 0
                   then [SysConnect (socket_ret e) path, SysClose (socket_ret e)]
                   else [SysConnect (socket_ret e) path, SysSetsockopt (socket_ret e)])
                @ (if nfd < 0 then [Stderr ReconnectFailed] else [Stderr Reconnected])))"
  using assms
  by (auto simp: aerospace_ensure_connected_def reconnect_def connect_socket_def fd_held_def Let_def)

lemma execute_write_failed:
  assumes "0 \<le> fd c" and "arg_count \<noteq> 0"
    and "W (envelope as arg_count stdin_payload) = Some json_str" and "writev_ret e < 0"
  shows "execute_aerospace_command P W e (Some c) (Some as) arg_count stdin_payload field inbox
         = (Returns None, Some (c\<lparr>fd := - 1, read_buf_len := 0\<rparr>), inbox,
            [SysWritev (fd c) (json_str @ [CHR 0x0A]), Stderr SocketWriteFailed, SysClose (fd c)])"
  using assms by (simp add: execute_aerospace_command_def)

lemma execute_read_failed:
  assumes "0 \<le> fd c" and "arg_count \<noteq> 0"
    and "W (envelope as arg_count stdin_payload) = Some json_str" and "0 \<le> writev_ret e"
    and "loop_reaches P (c\<lparr>command_count := command_count c + 1\<rparr>, inbox,
                         [SysWritev (fd c) (json_str @ [CHR 0x0A])]) (c1, inbox1, evs1)"
    and "read_buf_len c1 = 0 \<or> P (buffered c1) = None"
    and "read_buf_len c1 < READ_BUFFER_SIZE"
    and "fst (sys_read (READ_BUFFER_SIZE - read_buf_len c1) inbox1) \<le> 0"
  shows "\<exists>inbox' d. execute_aerospace_command P W e (Some c) (Some as) arg_count stdin_payload field inbox
         = (Returns None, Some (c1\<lparr>fd := - 1, read_buf_len := 0\<rparr>), inbox',
            evs1 @ [SysRead (fd c) (READ_BUFFER_SIZE - read_buf_len c1), Stderr d, SysClose (fd c)])
         \<and> d \<in> {ConnectionClosedByPeer, ReadTimeout, ReadError}"
proof -
  obtain n data t inbox' where rd: "sys_read (READ_BUFFER_SIZE - read_buf_len c1) inbox1 = (n, data, t, inbox')"
    using prod_cases4 by blast
  with assms(8) have n: "n \<le> 0" by simp
  let ?d = "if n = 0 then ConnectionClosedByPeer else if t then ReadTimeout else ReadError"
  have fd1: "fd c1 = fd c" using loop_reaches_frame [OF assms(5)] by simp
  have "loop_body P c1 inbox1 evs1 =
          Exit ReadFailed (c1\<lparr>fd := - 1, read_buf_len := 0\<rparr>) inbox'
            (evs1 @ [SysRead (fd c) (READ_BUFFER_SIZE - read_buf_len c1), Stderr ?d, SysClose (fd c)])"
    using assms(6,7) rd n fd1 by (auto simp: loop_body_def)
  from read_loop_at_exit [OF assms(5) this] have
    "execute_aerospace_command P W e (Some c) (Some as) arg_count stdin_payload field inbox
         = (Returns None, Some (c1\<lparr>fd := - 1, read_buf_len := 0\<rparr>), inbox',
            evs1 @ [SysRead (fd c) (READ_BUFFER_SIZE - read_buf_len c1), Stderr ?d, SysClose (fd c)])"
    using assms(1-4) by (simp add: execute_aerospace_command_def)
  moreover have "?d \<in> {ConnectionClosedByPeer, ReadTimeout, ReadError}" by simp
  ultimately show ?thesis by blast
qed

section \<open>Properties of the reader and of the result\<close>

lemma rd_run_bounded:
  "rd_run st n cs = Some (doc, k) \<Longrightarrow> k \<le> n + length cs"
proof (induction cs arbitrary: st n)
  case Nil
  then show ?case by simp
next
  case (Cons ch cs)
  show ?case
  proof (cases "rd_step st ch")
    case (Go st')
    with Cons.prems have "rd_run st' (Suc n) cs = Some (doc, k)" by simp
    from Cons.IH [OF this] show ?thesis by simp
  next
    case (Done d)
    with Cons.prems show ?thesis by simp
  next
    case Bad
    with Cons.prems show ?thesis by simp
  qed
qed

lemma flat_read_bounded: "reader_bounded flat_read"
  unfolding reader_bounded_def flat_read_def
  using rd_run_bounded by fastforce

lemma read_loop_parsed:
  assumes "read_loop P c inbox evs = (Parsed doc k, c1, inbox1, evs1)"
  shows "0 < read_buf_len c1" and "P (buffered c1) = Some (doc, k)" and "fd c1 = fd c"
    and "socket_path c1 = socket_path c"
    and "read_buf_len c \<le> READ_BUFFER_SIZE \<Longrightarrow> read_buf_len c1 \<le> READ_BUFFER_SIZE"
proof -
  from read_loop_reaches [OF assms] obtain c2 i2 e2 where
    r: "loop_reaches P (c, inbox, evs) (c2, i2, e2)"
    and x: "loop_body P c2 i2 e2 = Exit (Parsed doc k) c1 inbox1 evs1"
    by blast
  from loop_body_Exit(4) [OF x] have c2: "c1 = c2" "0 < read_buf_len c2" "P (buffered c2) = Some (doc, k)"
    by simp_all
  from c2 show "0 < read_buf_len c1" "P (buffered c1) = Some (doc, k)" by simp_all
  from loop_reaches_frame [OF r] c2(1) show "fd c1 = fd c" "socket_path c1 = socket_path c" by simp_all
  from loop_reaches_frame [OF r] c2(1)
  show "read_buf_len c \<le> READ_BUFFER_SIZE \<Longrightarrow> read_buf_len c1 \<le> READ_BUFFER_SIZE" by simp
qed

lemma execute_parsed:
  assumes "0 \<le> fd c" and "arg_count \<noteq> 0"
    and "W (envelope as arg_count stdin_payload) = Some json_str" and "0 \<le> writev_ret e"
    and "read_loop P (c\<lparr>command_count := command_count c + 1\<rparr>) inbox
           [SysWritev (fd c) (json_str @ [CHR 0x0A])] = (Parsed doc k, c1, inbox1, evs1)"
  shows "execute_aerospace_command P W e (Some c) (Some as) arg_count stdin_payload field inbox
         = (Returns (fst (extract_result doc field)), Some (compact c1 k), inbox1,
            evs1 @ snd (extract_result doc field))"
  using assms by (simp add: execute_aerospace_command_def split: prod.splits)

lemma c_int_zero: "sint (word_of_int n :: 32 word) = 0 \<longleftrightarrow> n mod 2 ^ 32 = 0"
proof -
  have "sint (word_of_int n :: 32 word) = 0 \<longleftrightarrow> (word_of_int n :: 32 word) = 0"
    by (simp add: signed_eq_0_iff)
  also have "\<dots> \<longleftrightarrow> 2 ^ 32 dvd n"
    by (simp add: word_of_int_eq_0_iff)
  also have "\<dots> \<longleftrightarrow> n mod 2 ^ 32 = 0"
    by (simp add: dvd_eq_mod_eq_0)
  finally show ?thesis .
qed

lemma extract_result_int:
  assumes "yyjson_obj_get doc ''exitCode'' = Some (JInt n)"
  shows "extract_result doc field =
           ((if n mod 2 ^ 32 \<noteq> 0
             then (case yyjson_obj_get doc ''stderr'' of Some (JStr s) \<Rightarrow> Some (strdup s) | _ \<Rightarrow> None)
             else (case field of
                     None \<Rightarrow> None
                   | Some f \<Rightarrow> (case yyjson_obj_get doc f of Some (JStr s) \<Rightarrow> Some (strdup s) | _ \<Rightarrow> None))),
            [])"
proof -
  have z: "(yyjson_get_int (Some (JInt n)) = 0) = (n mod 2 ^ 32 = 0)"
    using c_int_zero [of n] by simp
  have str: "(if yyjson_is_str v then (Some (strdup (yyjson_get_str v)), []) else (None, []))
             = ((case v of Some (JStr s) \<Rightarrow> Some (strdup s) | _ \<Rightarrow> None), [] :: event list)" for v
    by (cases v rule: yyjson_is_str.cases) simp_all
  show ?thesis
    unfolding extract_result_def Let_def assms str
    using z by (simp split: option.splits)
qed

lemma extract_result_malformed:
  assumes "\<not> yyjson_is_int (yyjson_obj_get doc ''exitCode'')"
  shows "extract_result doc field = (None, [Stderr NoValidExitCode])"
  using assms by (simp add: extract_result_def)

lemma strdup_plain: "CHR 0x00 \<notin> set s \<Longrightarrow> strdup s = s"
  unfolding strdup_def by (rule takeWhile_eq_all_conv [THEN iffD2]) auto

lemma c_int_in_range:
  assumes "- (2 ^ 31) \<le> n" and "n < 2 ^ 31"
  shows "(n mod 2 ^ 32 = 0) = (n = (0::int))"
proof
  assume m: "n mod 2 ^ 32 = 0"
  then have "(2 ^ 32 :: int) dvd n" by (simp add: dvd_eq_mod_eq_0)
  then obtain q where q: "n = 2 ^ 32 * q" ..
  with assms have "q = 0" by auto
  with q show "n = 0" by simp
next
  assume "n = 0" then show "n mod 2 ^ 32 = 0" by simp
qed

lemma flat_write_list_workspaces:
  "flat_write (envelope [''list-workspaces'', ''--monitor'', ''focused''] 3 (Some [])) =
     Some ''{\"command\":\"list-workspaces\",\"stdin\":\"\",\"args\":[\"list-workspaces\",\"--monitor\",\"focused\"]}''"
  by code_simp

lemma read_loop_sample:
  assumes "bs \<noteq> []" and "length bs \<le> READ_BUFFER_SIZE" and "P bs = Some (doc, k)"
  shows "read_loop P (up_client\<lparr>command_count := command_count up_client + 1\<rparr>) (Chunk bs # rest) evs
         = (Parsed doc k,
            up_client\<lparr>command_count := 1, read_buf := store (read_buf up_client) 0 bs,
                      read_buf_len := length bs\<rparr>,
            rest, evs @ [SysRead 3 READ_BUFFER_SIZE])"
  using read_loop_one_chunk [where P = P and c = "up_client\<lparr>command_count := command_count up_client + 1\<rparr>",
      OF _ assms]
  by (simp add: up_client_def)

lemma flat_read_ok_stdout:
  "flat_read ''{\"exitCode\":0,\"stdout\":\"ok\"}''
     = Some (JObj [(''exitCode'', JInt 0), (''stdout'', JStr ''ok'')], 28)"
  by (simp add: rd_simps)

lemma flat_read_boom:
  "flat_read ''{\"exitCode\":1,\"stderr\":\"boom\"}''
     = Some (JObj [(''exitCode'', JInt 1), (''stderr'', JStr ''boom'')], 30)"
  by (simp add: rd_simps)

lemma flat_read_bare:
  "flat_read ''{\"exitCode\":0}'' = Some (JObj [(''exitCode'', JInt 0)], 14)"
  by (simp add: rd_simps)

lemma flat_read_wide_exit:
  "flat_read ''{\"exitCode\":4294967296,\"stderr\":\"boom\",\"stdout\":\"ok\"}''
     = Some (JObj [(''exitCode'', JInt 4294967296), (''stderr'', JStr ''boom''),
                   (''stdout'', JStr ''ok'')], 53)"
  by (simp add: rd_simps)

lemma buffered_fresh:
  "buffered (c\<lparr>command_count := n, read_buf := store buf 0 bs, read_buf_len := length bs\<rparr>) = bs"
  by (rule nth_equalityI) (simp_all add: buffered_nth store_def)

lemma flat_read_no_exit_code:
  "flat_read (''{\"stdout\":\"x\"}'' @ [CHR 0x0A] @ ''{\"ex'') = Some (JObj [(''stdout'', JStr ''x'')], 14)"
  by (simp add: rd_simps)

section \<open>Properties of the states of a client\<close>

lemma read_loop_exit_ok:
  assumes "read_loop P c inbox evs = (x, c1, inbox1, evs1)" and "read_buf_len c \<le> READ_BUFFER_SIZE"
  shows "socket_path c1 = socket_path c"
    and "read_buf_len c1 \<le> READ_BUFFER_SIZE"
    and "x \<noteq> ReadFailed \<Longrightarrow> fd c1 = fd c"
    and "x = ReadFailed \<or> x = Overflowed \<Longrightarrow> read_buf_len c1 = 0"
    and "\<And>doc k. x = Parsed doc k \<Longrightarrow> P (buffered c1) = Some (doc, k)"
proof -
  from read_loop_reaches [OF assms(1)] obtain c2 i2 e2 where
    r: "loop_reaches P (c, inbox, evs) (c2, i2, e2)"
    and x: "loop_body P c2 i2 e2 = Exit x c1 inbox1 evs1"
    by blast
  from loop_reaches_frame [OF r] assms(2) have
    f: "fd c2 = fd c" "socket_path c2 = socket_path c" "read_buf_len c2 \<le> READ_BUFFER_SIZE"
    by simp_all
  note e = loop_body_Exit [OF x]
  from e(2) f(2) show "socket_path c1 = socket_path c" by simp
  from e(4) f(3) show "read_buf_len c1 \<le> READ_BUFFER_SIZE" by (cases x) auto
  from e(4) f(1) show "x \<noteq> ReadFailed \<Longrightarrow> fd c1 = fd c" by (cases x) auto
  from e(4) show "x = ReadFailed \<or> x = Overflowed \<Longrightarrow> read_buf_len c1 = 0" by (cases x) auto
  from e(4) show "\<And>doc k. x = Parsed doc k \<Longrightarrow> P (buffered c1) = Some (doc, k)" by auto
qed

lemma execute_ok:
  assumes "reader_bounded P" and "client_ok c"
    and "execute_aerospace_command P W e (Some c) args arg_count stdin_payload field inbox
           = (r, client', inbox', evs)"
  shows "\<exists>c'. client' = Some c' \<and> client_ok c'"
proof (cases "\<exists>as json_str. args = Some as \<and> arg_count \<noteq> 0 \<and> 0 \<le> fd c
                  \<and> W (envelope as arg_count stdin_payload) = Some json_str")
  case False
  with assms(3) have "client' = Some c"
    by (auto simp: execute_aerospace_command_def split: option.splits if_splits)
  with assms(2) show ?thesis by simp
next
  case True
  then obtain as json_str where v: "args = Some as" "arg_count \<noteq> 0" "0 \<le> fd c"
    "W (envelope as arg_count stdin_payload) = Some json_str" by blast
  show ?thesis
  proof (cases "writev_ret e < 0")
    case True
    with v assms(3) have "client' = Some (c\<lparr>fd := - 1, read_buf_len := 0\<rparr>)"
      by (simp add: execute_aerospace_command_def)
    with assms(2) show ?thesis by (simp add: client_ok_def)
  next
    case False
    obtain x c1 inbox1 evs1 where
      loop: "read_loop P (c\<lparr>command_count := command_count c + 1\<rparr>) inbox
               [SysWritev (fd c) (json_str @ [CHR 0x0A])] = (x, c1, inbox1, evs1)"
      using prod_cases4 by blast
    have len: "read_buf_len (c\<lparr>command_count := command_count c + 1\<rparr>) \<le> READ_BUFFER_SIZE"
      using assms(2) by (simp add: client_ok_def)
    note ex = read_loop_exit_ok [OF loop len]
    from ex(1) assms(2) have sp: "socket_path c1 \<noteq> None" by (simp add: client_ok_def)
    show ?thesis
    proof (cases x)
      case (Parsed doc k)
      with v False loop assms(3) have c': "client' = Some (compact c1 k)"
        by (simp add: execute_aerospace_command_def split: prod.splits)
      from ex(5) [OF Parsed] assms(1) have k: "k \<le> read_buf_len c1"
        unfolding reader_bounded_def by fastforce
      from ex(3) Parsed v(3) have "0 \<le> fd c1" by simp
      with compact_len [OF k ex(2)] ex(2) sp have "client_ok (compact c1 k)"
        by (simp add: client_ok_def compact_frame)
      with c' show ?thesis by simp
    next
      case Overflowed
      with v False loop assms(3) have c': "client' = Some c1"
        by (simp add: execute_aerospace_command_def)
      from ex(4) Overflowed sp have "client_ok c1" by (simp add: client_ok_def)
      with c' show ?thesis by simp
    next
      case ReadFailed
      with v False loop assms(3) have c': "client' = Some c1"
        by (simp add: execute_aerospace_command_def)
      from ex(4) ReadFailed sp have "client_ok c1" by (simp add: client_ok_def)
      with c' show ?thesis by simp
    qed
  qed
qed

lemma connect_socket_fd: "fst (connect_socket e path) = (if socket_ret e < 0 \<or> connect_ret e < 0 then - 1 else socket_ret e)"
  by (simp add: connect_socket_def Let_def)

lemma ensure_connected_ok:
  assumes "client_ok c" and "aerospace_ensure_connected e (Some c) = (r, client', evs)"
  shows "\<exists>c'. client' = Some c' \<and> client_ok c'"
  using assms
  by (auto simp: aerospace_ensure_connected_def reconnect_def client_ok_def Let_def
           split: if_splits prod.splits option.splits)

lemma new_ok:
  assumes "aerospace_new e mem socketPath = Returns (c, evs)"
  shows "client_ok c"
  using assms
  by (auto simp: aerospace_new_def client_ok_def Let_def get_default_socket_path_def
           split: call.splits prod.splits option.splits)

lemma reachable_ok:
  assumes "reachable P W client" and "reader_bounded P"
  shows "\<forall>c. client = Some c \<longrightarrow> client_ok c"
  using assms
proof (induction rule: reachable.induct)
  case (created e mem socketPath c evs)
  then show ?case using new_ok by auto
next
  case (ensured c e r client' evs)
  then show ?case using ensure_connected_ok by blast
next
  case (switched c e direction inbox res client' inbox' evs)
  from switched.IH switched.prems have ok: "client_ok c" by simp
  from switched.hyps(2) have
    "execute_aerospace_command P W e (Some c) (Some [''workspace'', direction]) 2 (Some []) None inbox
       = (Returns res, client', inbox', evs)"
    by (simp add: aerospace_switch_def aerospace_workspace_def)
  from execute_ok [OF switched.prems ok this] show ?case by auto
next
  case (moved c e wrap_around ws_command stdin_payload inbox res client' inbox' evs)
  from moved.IH moved.prems have ok: "client_ok c" by simp
  from moved.hyps(2) have
    "\<exists>args n. execute_aerospace_command P W e (Some c) args n stdin_payload None inbox
       = (Returns res, client', inbox', evs)"
    by (auto simp: aerospace_workspace_def split: if_splits)
  then obtain args n where
    "execute_aerospace_command P W e (Some c) args n stdin_payload None inbox
       = (Returns res, client', inbox', evs)" by blast
  from execute_ok [OF moved.prems ok this] show ?case by auto
next
  case (listed c e include_empty inbox res client' inbox' evs)
  from listed.IH listed.prems have ok: "client_ok c" by simp
  from listed.hyps(2) have
    "\<exists>args n. execute_aerospace_command P W e (Some c) args n (Some []) (Some ''stdout'') inbox
       = (Returns res, client', inbox', evs)"
    by (auto simp: aerospace_list_workspaces_def split: if_splits)
  then obtain args n where
    "execute_aerospace_command P W e (Some c) args n (Some []) (Some ''stdout'') inbox
       = (Returns res, client', inbox', evs)" by blast
  from execute_ok [OF listed.prems ok this] show ?case by auto
next
  case (closed c e client' evs)
  then show ?case by (simp add: aerospace_close_def)
qed

lemma dropped_client_reachable: "reachable flat_read flat_write (Some dropped_client)"
proof -
  have "aerospace_new (calm_env\<lparr>socket_ret := 3\<rparr>) (\<lambda>i. CHR 0x00)
          (Some ''/tmp/bobko.aerospace-me.sock'')
        = Returns (up_client, [SysSocket, SysConnect 3 ''/tmp/bobko.aerospace-me.sock'', SysSetsockopt 3])"
    by (simp add: aerospace_new_def connect_socket_def calm_env_def up_client_def strdup_def)
  then have up: "reachable flat_read flat_write (Some up_client)"
    by (rule reachable.created)
  let ?js = "''{\"command\":\"list-workspaces\",\"stdin\":\"\",\"args\":[\"list-workspaces\",\"--monitor\",\"focused\"]}''"
  let ?c0 = "up_client\<lparr>command_count := command_count up_client + 1\<rparr>"
  have v: "0 \<le> fd up_client" "(3::int) \<noteq> 0" "0 \<le> writev_ret calm_env"
    by (simp_all add: up_client_def calm_env_def)
  have rd: "read_buf_len ?c0 = 0 \<or> flat_read (buffered ?c0) = None"
    "read_buf_len ?c0 < READ_BUFFER_SIZE"
    "fst (sys_read (READ_BUFFER_SIZE - read_buf_len ?c0) [Closed]) \<le> 0"
    by (simp_all add: up_client_def READ_BUFFER_SIZE_def)
  from execute_read_failed [where P = flat_read and W = flat_write and field = "Some ''stdout''",
      OF v(1,2) flat_write_list_workspaces v(3) loop_reaches.here rd]
  obtain inbox' evs where
    "execute_aerospace_command flat_read flat_write calm_env (Some up_client)
       (Some [''list-workspaces'', ''--monitor'', ''focused'']) 3 (Some []) (Some ''stdout'') [Closed]
     = (Returns None, Some (?c0\<lparr>fd := - 1, read_buf_len := 0\<rparr>), inbox', evs)"
    by blast
  then have "aerospace_list_workspaces flat_read flat_write calm_env (Some up_client) True [Closed]
     = (Returns None, Some dropped_client, inbox', evs)"
    by (simp add: aerospace_list_workspaces_def dropped_client_def up_client_def)
  from reachable.listed [OF up this] show ?thesis .
qed

section \<open>Properties of a stream of framed documents\<close>

lemma sys_read_chunks:
  assumes "[] \<notin> set chunks" and "chunks \<noteq> []" and "0 < count"
  shows "\<exists>data chunks'. sys_read count (map Chunk chunks) = (int (length data), data, False, map Chunk chunks')
           \<and> data \<noteq> [] \<and> length data \<le> count \<and> [] \<notin> set chunks'
           \<and> data @ concat chunks' = concat chunks"
proof -
  from assms(2) obtain ch chs where c: "chunks = ch # chs" by (cases chunks) auto
  with assms(1) have ne: "ch \<noteq> []" "[] \<notin> set chs" by auto
  show ?thesis
  proof (cases "length ch \<le> count")
    case True
    with c ne show ?thesis by (intro exI [of _ ch] exI [of _ chs]) simp
  next
    case False
    with c ne assms(3) show ?thesis
      by (intro exI [of _ "take count ch"] exI [of _ "drop count ch # chs"]) auto
  qed
qed

lemma framed_loop:
  assumes "length enc \<le> READ_BUFFER_SIZE"
  shows "framed P enc doc \<Longrightarrow> [] \<notin> set chunks \<Longrightarrow> read_buf_len c \<le> READ_BUFFER_SIZE
     \<Longrightarrow> buffered c @ concat chunks = enc @ tail \<Longrightarrow> inbox = map Chunk chunks
     \<Longrightarrow> \<exists>c1 chunks1 evs1.
           read_loop P c inbox evs = (Parsed doc (length enc), c1, map Chunk chunks1, evs1)
           \<and> [] \<notin> set chunks1 \<and> buffered c1 @ concat chunks1 = enc @ tail
           \<and> read_buf_len c1 \<le> READ_BUFFER_SIZE \<and> length enc \<le> read_buf_len c1"
proof (induction P c inbox evs arbitrary: chunks rule: read_loop.induct)
  case (1 P c inbox evs)
  note fr = "1.prems"(1)
  note ne = "1.prems"(2)
  note cap = "1.prems"(3)
  note str = "1.prems"(4)
  note inb = "1.prems"(5)
  show ?case
  proof (cases "length enc \<le> read_buf_len c")
    case True
    with str have "buffered c = enc @ drop (length enc) (buffered c)"
      by (metis append_eq_append_conv_if append_take_drop_id buffered_length)
    with fr have p: "P (buffered c) = Some (doc, length enc)"
      unfolding framed_def by metis
    from fr True have "0 < read_buf_len c" by (cases enc) (auto simp: framed_def)
    from loop_body_parsed [where P = P, OF this p] have
      "read_loop P c inbox evs = (Parsed doc (length enc), c, inbox, evs)"
      by (simp add: read_loop.simps [of P c inbox evs])
    with "1.prems" True show ?thesis by auto
  next
    case False
    then have short: "read_buf_len c < length enc" by simp
    with str have "buffered c = take (read_buf_len c) enc"
      by (metis append_eq_append_conv_if buffered_length less_imp_le_nat)
    with fr short have none: "read_buf_len c = 0 \<or> P (buffered c) = None"
      unfolding framed_def by (metis neq0_conv)
    from short assms have room: "read_buf_len c < READ_BUFFER_SIZE" by simp
    from str short have "concat chunks \<noteq> []"
      by (metis append_Nil2 buffered_length length_append less_irrefl_nat not_add_less1)
    then have "chunks \<noteq> []" by auto
    from sys_read_chunks [OF ne this, of "READ_BUFFER_SIZE - read_buf_len c"] room
    obtain data chunks' where
      rd: "sys_read (READ_BUFFER_SIZE - read_buf_len c) (map Chunk chunks)
             = (int (length data), data, False, map Chunk chunks')"
      and d: "data \<noteq> []" "length data \<le> READ_BUFFER_SIZE - read_buf_len c" "[] \<notin> set chunks'"
        "data @ concat chunks' = concat chunks"
      by auto
    let ?c' = "c\<lparr>read_buf := store (read_buf c) (read_buf_len c) data,
                  read_buf_len := read_buf_len c + length data\<rparr>"
    let ?evs' = "evs @ [SysRead (fd c) (READ_BUFFER_SIZE - read_buf_len c)]"
    from none room rd d(1) inb have step:
      "loop_body P c inbox evs = Continue ?c' (map Chunk chunks') ?evs'"
      by (auto simp: loop_body_def)
    have len': "read_buf_len ?c' \<le> READ_BUFFER_SIZE"
      using d(2) room by simp
    have buf': "buffered ?c' @ concat chunks' = enc @ tail"
      using buffered_store [of c data] d(4) str by simp
    from "1.IH" [OF step fr d(3) len' buf' refl] step show ?thesis
      by (simp add: read_loop.simps [of P c inbox evs])
  qed
qed

lemma framed_call:
  assumes "0 \<le> fd c" and "arg_count \<noteq> 0"
    and "W (envelope as arg_count stdin_payload) = Some json_str" and "0 \<le> writev_ret e"
    and "framed P enc doc" and "length enc \<le> READ_BUFFER_SIZE"
    and "[] \<notin> set chunks" and "read_buf_len c \<le> READ_BUFFER_SIZE"
    and "buffered c @ concat chunks = enc @ tail"
  shows "\<exists>c' chunks' evs.
           execute_aerospace_command P W e (Some c) (Some as) arg_count stdin_payload field
             (map Chunk chunks)
           = (Returns (fst (extract_result doc field)), Some c', map Chunk chunks', evs)
           \<and> [] \<notin> set chunks' \<and> buffered c' @ concat chunks' = tail
           \<and> read_buf_len c' \<le> READ_BUFFER_SIZE \<and> fd c' = fd c
           \<and> command_count c' = command_count c + 1"
proof -
  let ?c0 = "c\<lparr>command_count := command_count c + 1\<rparr>"
  have b0: "buffered ?c0 = buffered c" by (simp add: buffered_def)
  from framed_loop [OF assms(6,5,7), of ?c0 tail "map Chunk chunks"
      "[SysWritev (fd c) (json_str @ [CHR 0x0A])]"] assms(8,9) b0
  obtain c1 chunks1 evs1 where
    loop: "read_loop P ?c0 (map Chunk chunks) [SysWritev (fd c) (json_str @ [CHR 0x0A])]
            = (Parsed doc (length enc), c1, map Chunk chunks1, evs1)"
    and ne: "[] \<notin> set chunks1" and str: "buffered c1 @ concat chunks1 = enc @ tail"
    and cap: "read_buf_len c1 \<le> READ_BUFFER_SIZE" and k: "length enc \<le> read_buf_len c1"
    by auto
  note run = execute_parsed [where W = W and P = P and field = field, OF assms(1-4) loop]
  from read_loop_parsed(3) [OF loop] read_loop_count [OF loop]
  have fr: "fd (compact c1 (length enc)) = fd c"
    "command_count (compact c1 (length enc)) = command_count c + 1"
    by (simp_all add: compact_frame)
  have "buffered (compact c1 (length enc)) @ concat chunks1
          = drop (length enc) (buffered c1 @ concat chunks1)"
    using buffered_compact [OF k cap] k by simp
  with str have tl: "buffered (compact c1 (length enc)) @ concat chunks1 = tail" by simp
  have "read_buf_len (compact c1 (length enc)) \<le> READ_BUFFER_SIZE"
    using compact_len [OF k cap] cap by simp
  with run ne tl fr show ?thesis by blast
qed

lemma framed_calls:
  assumes "0 \<le> fd c" and "arg_count \<noteq> 0"
    and "W (envelope as arg_count stdin_payload) = Some json_str" and "0 \<le> writev_ret e"
  shows "\<forall>(enc, doc) \<in> set frames. framed P enc doc \<and> length enc \<le> READ_BUFFER_SIZE
     \<Longrightarrow> [] \<notin> set chunks \<Longrightarrow> read_buf_len c \<le> READ_BUFFER_SIZE
     \<Longrightarrow> buffered c @ concat chunks = concat (map fst frames)
     \<Longrightarrow> \<exists>c'. execute_times P W e (Some as) arg_count stdin_payload field (length frames)
                 (Some c) (map Chunk chunks)
               = (map (\<lambda>(enc, doc). Returns (fst (extract_result doc field))) frames, Some c', [])
             \<and> read_buf_len c' = 0 \<and> fd c' = fd c
             \<and> command_count c' = command_count c + of_nat (length frames)"
  using assms(1)
proof (induction frames arbitrary: c chunks)
  case Nil
  then have b: "buffered c = []" and ch: "concat chunks = []" by simp_all
  from b have "length (buffered c) = 0" by simp
  then have len: "read_buf_len c = 0" by simp
  from ch Nil.prems(2) have "chunks = []" by (cases chunks) auto
  with len show ?case by simp
next
  case (Cons f frames)
  obtain enc doc where f: "f = (enc, doc)" by (cases f)
  with Cons.prems(1) have fr: "framed P enc doc" "length enc \<le> READ_BUFFER_SIZE"
    and rest: "\<forall>(enc, doc) \<in> set frames. framed P enc doc \<and> length enc \<le> READ_BUFFER_SIZE"
    by auto
  from Cons.prems(4) f have str: "buffered c @ concat chunks = enc @ concat (map fst frames)"
    by simp
  from framed_call [where W = W and P = P and field = field,
      OF Cons.prems(5) assms(2-4) fr Cons.prems(2,3) str]
  obtain c1 chunks1 evs1 where
    run: "execute_aerospace_command P W e (Some c) (Some as) arg_count stdin_payload field
             (map Chunk chunks)
           = (Returns (fst (extract_result doc field)), Some c1, map Chunk chunks1, evs1)"
    and st: "[] \<notin> set chunks1" "buffered c1 @ concat chunks1 = concat (map fst frames)"
      "read_buf_len c1 \<le> READ_BUFFER_SIZE" "fd c1 = fd c"
      "command_count c1 = command_count c + 1"
    by blast
  from st(4) Cons.prems(5) have "0 \<le> fd c1" by simp
  from Cons.IH [OF rest st(1,3,2) this] obtain c' where
    "execute_times P W e (Some as) arg_count stdin_payload field (length frames)
                 (Some c1) (map Chunk chunks1)
               = (map (\<lambda>(enc, doc). Returns (fst (extract_result doc field))) frames, Some c', [])"
    "read_buf_len c' = 0" "fd c' = fd c1"
    "command_count c' = command_count c1 + of_nat (length frames)"
    by blast
  with run st f show ?case by simp
qed

lemma rd_run_extend:
  "rd_run st n a = Some r \<Longrightarrow> rd_run st n (a @ b) = Some r"
proof (induction a arbitrary: st n)
  case Nil
  then show ?case by simp
next
  case (Cons ch a)
  then show ?case by (cases "rd_step st ch") simp_all
qed

lemma flat_read_framed:
  assumes "flat_read enc = Some (doc, length enc)"
  shows "framed flat_read enc doc"
  unfolding framed_def
proof (intro conjI allI impI)
  from assms show "enc \<noteq> []" by (auto simp: flat_read_def)
next
  fix rest
  from assms show "flat_read (enc @ rest) = Some (doc, length enc)"
    unfolding flat_read_def by (rule rd_run_extend)
next
  fix n assume n: "0 < n \<and> n < length enc"
  show "flat_read (take n enc) = None"
  proof (rule ccontr)
    assume "flat_read (take n enc) \<noteq> None"
    then obtain d k where some: "flat_read (take n enc) = Some (d, k)" by auto
    with flat_read_bounded have "k \<le> length (take n enc)"
      unfolding reader_bounded_def by blast
    with n have k: "k < length enc" by simp
    from some have "flat_read (take n enc @ drop n enc) = Some (d, k)"
      unfolding flat_read_def by (rule rd_run_extend)
    with assms have "k = length enc" by simp
    with k show False by simp
  qed
qed

lemma rd_run_in_string:
  assumes "is_plain ch"
  shows "rd_run (RInStr ms key s) n (replicate m ch @ t)
         = rd_run (RInStr ms key (s @ replicate m ch)) (n + m) t"
proof (induction m arbitrary: s n)
  case 0
  show ?case by simp
next
  case (Suc m)
  from assms have "ch \<noteq> CHR 0x22" by (auto simp: is_plain_def)
  with assms Suc [of "s @ [ch]" "Suc n"] show ?case
    by (simp add: replicate_app_Cons_same)
qed

lemma flat_read_long_response:
  "flat_read long_response = Some (long_document, length long_response)"
proof -
  have a: "is_plain (CHR ''a'')" by (simp add: is_plain_def)
  let ?head = "''{\"exitCode\":0,\"stdout\":\"''"
  have "flat_read long_response
        = rd_run (RInStr [(''exitCode'', JInt 0)] ''stdout'' []) (length ?head)
            (replicate 8192 (CHR ''a'') @ [CHR 0x22, CHR 0x7D])"
    by (simp add: long_response_def rd_simps)
  also have "\<dots> = rd_run (RInStr [(''exitCode'', JInt 0)] ''stdout'' ([] @ replicate 8192 (CHR ''a'')))
                      (length ?head + 8192) [CHR 0x22, CHR 0x7D]"
    by (rule rd_run_in_string [OF a])
  also have "\<dots> = Some (long_document, length long_response)"
    by (simp add: long_document_def long_response_def rd_simps)
  finally show ?thesis .
qed

lemma loop_body_long_chunk:
  assumes "read_buf_len c = 0 \<or> P (buffered c) = None"
    and "read_buf_len c < READ_BUFFER_SIZE"
    and "READ_BUFFER_SIZE - read_buf_len c < length bs"
  shows "loop_body P c (Chunk bs # rest) evs =
           Continue (c\<lparr>read_buf := store (read_buf c) (read_buf_len c)
                                    (take (READ_BUFFER_SIZE - read_buf_len c) bs),
                       read_buf_len := read_buf_len c
                          + length (take (READ_BUFFER_SIZE - read_buf_len c) bs)\<rparr>)
                    (Chunk (drop (READ_BUFFER_SIZE - read_buf_len c) bs) # rest)
                    (evs @ [SysRead (fd c) (READ_BUFFER_SIZE - read_buf_len c)])"
  using assms by (auto simp: loop_body_def min_def)

lemma execute_overflowed:
  assumes "0 \<le> fd c" and "arg_count \<noteq> 0"
    and "W (envelope as arg_count stdin_payload) = Some json_str" and "0 \<le> writev_ret e"
    and "loop_reaches P (c\<lparr>command_count := command_count c + 1\<rparr>, inbox,
                         [SysWritev (fd c) (json_str @ [CHR 0x0A])]) (c1, inbox1, evs1)"
    and "READ_BUFFER_SIZE \<le> read_buf_len c1" and "P (buffered c1) = None"
  shows "execute_aerospace_command P W e (Some c) (Some as) arg_count stdin_payload field inbox
         = (Returns None, Some (c1\<lparr>read_buf_len := 0\<rparr>), inbox1, evs1 @ [Stderr ReadBufferOverflow])"
proof -
  have "loop_body P c1 inbox1 evs1 =
          Exit Overflowed (c1\<lparr>read_buf_len := 0\<rparr>) inbox1 (evs1 @ [Stderr ReadBufferOverflow])"
    using assms(6,7) by (simp add: loop_body_def)
  from read_loop_at_exit [OF assms(5) this] show ?thesis
    using assms(1-4) by (simp add: execute_aerospace_command_def)
qed

lemma long_response_overflows:
  "\<exists>c'. execute_aerospace_command flat_read flat_write calm_env (Some up_client)
       (Some [''list-workspaces'', ''--monitor'', ''focused'']) 3 (Some []) (Some ''stdout'')
       [Chunk long_response]
     = (Returns None, Some c', [Chunk (drop 8192 long_response)],
        [SysWritev 3 ''{\"command\":\"list-workspaces\",\"stdin\":\"\",\"args\":[\"list-workspaces\",\"--monitor\",\"focused\"]}\<newline>'',
         SysRead 3 8192, Stderr ReadBufferOverflow])
     \<and> read_buf_len c' = 0"
proof -
  let ?js = "''{\"command\":\"list-workspaces\",\"stdin\":\"\",\"args\":[\"list-workspaces\",\"--monitor\",\"focused\"]}''"
  let ?c0 = "up_client\<lparr>command_count := command_count up_client + 1\<rparr>"
  let ?data = "take (READ_BUFFER_SIZE - read_buf_len ?c0) long_response"
  let ?c1 = "?c0\<lparr>read_buf := store (read_buf ?c0) (read_buf_len ?c0) ?data,
                 read_buf_len := read_buf_len ?c0 + length ?data\<rparr>"
  have len0: "read_buf_len ?c0 = 0" by (simp add: up_client_def)
  have ll: "length long_response = 8218" by (simp add: long_response_def)
  have step: "loop_body flat_read ?c0 (Chunk long_response # []) [SysWritev (fd up_client) (?js @ [CHR 0x0A])]
      = Continue ?c1 (Chunk (drop (READ_BUFFER_SIZE - read_buf_len ?c0) long_response) # [])
          ([SysWritev (fd up_client) (?js @ [CHR 0x0A])]
           @ [SysRead (fd ?c0) (READ_BUFFER_SIZE - read_buf_len ?c0)])"
    by (rule loop_body_long_chunk) (simp_all add: len0 ll READ_BUFFER_SIZE_def)
  note reach = loop_reaches.round [OF loop_reaches.here step]
  have full: "READ_BUFFER_SIZE \<le> read_buf_len ?c1"
    by (simp add: len0 ll READ_BUFFER_SIZE_def)
  have "buffered ?c1 = buffered ?c0 @ ?data" by (rule buffered_store)
  then have buf: "buffered ?c1 = take 8192 long_response"
    by (simp add: buffered_empty len0 READ_BUFFER_SIZE_def)
  from flat_read_framed [OF flat_read_long_response] ll
  have "flat_read (take 8192 long_response) = None"
    unfolding framed_def by simp
  with buf have none: "flat_read (buffered ?c1) = None" by simp
  have v: "0 \<le> fd up_client" "(3::int) \<noteq> 0" "0 \<le> writev_ret calm_env"
    by (simp_all add: up_client_def calm_env_def)
  from execute_overflowed [where P = flat_read and W = flat_write and field = "Some ''stdout''",
      OF v(1,2) flat_write_list_workspaces v(3) reach full none]
  show ?thesis
    by (simp add: up_client_def READ_BUFFER_SIZE_def)
qed

lemma flat_read_ok_framed:
  "framed flat_read ''{\"exitCode\":0,\"stdout\":\"ok\"}''
     (JObj [(''exitCode'', JInt 0), (''stdout'', JStr ''ok'')])"
  by (rule flat_read_framed) (simp add: rd_simps)

lemma flat_read_boom_framed:
  "framed flat_read (CHR 0x0A # ''{\"exitCode\":1,\"stderr\":\"boom\"}'')
     (JObj [(''exitCode'', JInt 1), (''stderr'', JStr ''boom'')])"
  by (rule flat_read_framed) (simp add: rd_simps)

lemma flat_read_ok_and_more:
  "flat_read (''{\"exitCode\":0,\"stdout\":\"ok\"}'' @ [CHR 0x0A] @ ''{\"ex'')
     = Some (JObj [(''exitCode'', JInt 0), (''stdout'', JStr ''ok'')], 28)"
  by (simp add: rd_simps)

section \<open>The claims\<close>

subsection \<open>Calls that are refused\<close>

text \<open>
  C10. With a NULL client \<^verbatim>\<open>aerospace_ensure_connected\<close> returns 0 and
  \<^verbatim>\<open>aerospace_close\<close> does nothing: no system call is made, nothing is printed, there is
  no client afterwards either, and both return to the caller.
\<close>

theorem null_client_is_safe:
  "aerospace_ensure_connected e None = (0, None, [])
   \<and> aerospace_close e None = (None, [])"
  by (simp add: aerospace_ensure_connected_def aerospace_close_def)

text \<open>
  C9. Called with a NULL client, a NULL argument array, an argument count of 0 or a
  client that holds no descriptor, \<^verbatim>\<open>execute_aerospace_command\<close> returns NULL, leaves the
  client (descriptor, buffer length, counter and all) and the incoming stream as they
  were, and its only event is the message on stderr: nothing is written to the socket.
\<close>

theorem execute_rejects_before_write:
  assumes "client = None \<or> args = None \<or> arg_count = 0 \<or> (\<exists>c. client = Some c \<and> fd c < 0)"
  shows "execute_aerospace_command P W e client args arg_count stdin_payload expected_output_field inbox
           = (Returns None, client, inbox,
              [Stderr (if client = None \<or> args = None \<or> arg_count = 0
                       then InvalidArguments else SocketNotConnected)])"
  using assms
  by (auto simp: execute_aerospace_command_def split: option.splits)

theorem execute_rejects_before_write_witness:
  "fd down_client < 0
   \<and> execute_aerospace_command flat_read flat_write calm_env (Some down_client)
        (Some [''workspace'', ''next'']) 2 (Some []) None [Chunk ''{}'']
      = (Returns None, Some down_client, [Chunk ''{}''], [Stderr SocketNotConnected])
   \<and> execute_aerospace_command flat_read flat_write calm_env None
        (Some [''workspace'', ''next'']) 2 (Some []) None [Chunk ''{}'']
      = (Returns None, None, [Chunk ''{}''], [Stderr InvalidArguments])
   \<and> execute_aerospace_command flat_read flat_write calm_env (Some up_client)
        None 2 (Some []) None [Chunk ''{}'']
      = (Returns None, Some up_client, [Chunk ''{}''], [Stderr InvalidArguments])
   \<and> execute_aerospace_command flat_read flat_write calm_env (Some up_client)
        (Some []) 0 (Some []) None [Chunk ''{}'']
      = (Returns None, Some up_client, [Chunk ''{}''], [Stderr InvalidArguments])"
proof -
  have down: "fd down_client < 0" by (simp add: down_client_def up_client_def)
  show ?thesis
    using down
      execute_rejects_before_write [of "Some down_client" "Some [''workspace'', ''next'']" 2
        flat_read flat_write calm_env "Some []" None "[Chunk ''{}'']"]
      execute_rejects_before_write [of None "Some [''workspace'', ''next'']" 2
        flat_read flat_write calm_env "Some []" None "[Chunk ''{}'']"]
      execute_rejects_before_write [of "Some up_client" None 2
        flat_read flat_write calm_env "Some []" None "[Chunk ''{}'']"]
      execute_rejects_before_write [of "Some up_client" "Some []" 0
        flat_read flat_write calm_env "Some []" None "[Chunk ''{}'']"]
    by simp
qed

subsection \<open>The command counter\<close>

text \<open>
  C6. A call of \<^verbatim>\<open>execute_aerospace_command\<close> on a client changes the command counter in
  one way only: when the write phase completes (the arguments are accepted, a
  descriptor is held, the request is serialised and \<^verbatim>\<open>writev\<close> does not fail) the counter
  is one more than before, as an \<open>unsigned int\<close>, whatever the reading and parsing that
  follow do; in every other case the counter is what it was.
\<close>

theorem counter_incremented_once:
  assumes "execute_aerospace_command P W e (Some c) args arg_count stdin_payload expected_output_field inbox
           = (r, client', inbox', evs)"
  shows "\<exists>c'. client' = Some c' \<and> command_count c' =
          (if (\<exists>as json_str. args = Some as \<and> arg_count \<noteq> 0 \<and> 0 \<le> fd c
                  \<and> W (envelope as arg_count stdin_payload) = Some json_str \<and> 0 \<le> writev_ret e)
           then command_count c + 1 else command_count c)"
  using assms
  by (auto simp: execute_aerospace_command_def compact_frame
           split: option.splits if_splits prod.splits loop_exit.splits dest!: read_loop_count)


theorem counter_incremented_once_witness:
  "\<exists>r c' inbox' evs.
     execute_aerospace_command flat_read flat_write calm_env (Some up_client)
       (Some [''workspace'', ''next'']) 2 (Some []) None [Chunk ''{\"exitCode\":0}'']
     = (r, Some c', inbox', evs) \<and> command_count c' = 1"
proof -
  obtain r client' inbox' evs where
    run: "execute_aerospace_command flat_read flat_write calm_env (Some up_client)
       (Some [''workspace'', ''next'']) 2 (Some []) None [Chunk ''{\"exitCode\":0}'']
     = (r, client', inbox', evs)"
    using prod_cases4 by blast
  from counter_incremented_once [OF run] obtain c' where
    "client' = Some c'" and "command_count c' = 1"
    by (auto simp: flat_write_workspace_next up_client_def calm_env_def)
  with run show ?thesis by blast
qed

subsection \<open>The proactive refresh\<close>

text \<open>
  C5. When the client holds a descriptor and its counter has reached
  \<open>AEROSPACE_RECONNECT_INTERVAL\<close> (50), \<^verbatim>\<open>aerospace_ensure_connected\<close> closes the
  descriptor held and calls \<^verbatim>\<open>socket\<close> and \<^verbatim>\<open>connect\<close> again. The buffer length and the
  counter are zero afterwards whether or not that succeeds. When it fails the client
  holds no descriptor and 0 is returned; otherwise the client holds the new descriptor
  and 1 is returned. The client owns its socket path, as every client made by
  \<^verbatim>\<open>aerospace_new\<close> does.
\<close>

theorem proactive_refresh:
  assumes "0 \<le> fd c" and "AEROSPACE_RECONNECT_INTERVAL \<le> command_count c"
    and "socket_path c = Some path"
  shows "aerospace_ensure_connected e (Some c) =
           (let nfd = (if socket_ret e < 0 \<or> connect_ret e < 0 then - 1 else socket_ret e)
            in ((if 0 \<le> nfd then 1 else 0),
                Some (c\<lparr>fd := nfd, read_buf_len := 0, command_count := 0\<rparr>),
                [Stderr (ProactiveRefresh (command_count c)), SysClose (fd c), SysSocket]
                @ (if socket_ret e < 0 then []
                   else if connect_ret e < 0
                   then [SysConnect (socket_ret e) path, SysClose (socket_ret e)]
                   else [SysConnect (socket_ret e) path, SysSetsockopt (socket_ret e)])
                @ (if nfd < 0 then [Stderr ReconnectFailed] else [])))"
  using assms
  by (auto simp: aerospace_ensure_connected_def reconnect_def connect_socket_def fd_held_def Let_def)

theorem proactive_refresh_witness:
  "0 \<le> fd (up_client\<lparr>command_count := 50\<rparr>)
   \<and> AEROSPACE_RECONNECT_INTERVAL \<le> command_count (up_client\<lparr>command_count := 50\<rparr>)
   \<and> aerospace_ensure_connected calm_env (Some (up_client\<lparr>command_count := 50\<rparr>)) =
        (1, Some (up_client\<lparr>fd := 4\<rparr>),
         [Stderr (ProactiveRefresh 50), SysClose 3, SysSocket,
          SysConnect 4 ''/tmp/bobko.aerospace-me.sock'', SysSetsockopt 4])
   \<and> aerospace_ensure_connected (calm_env\<lparr>connect_ret := - 1\<rparr>) (Some (up_client\<lparr>command_count := 50\<rparr>)) =
        (0, Some (up_client\<lparr>fd := - 1\<rparr>),
         [Stderr (ProactiveRefresh 50), SysClose 3, SysSocket,
          SysConnect 4 ''/tmp/bobko.aerospace-me.sock'', SysClose 4, Stderr ReconnectFailed])"
proof -
  have h: "0 \<le> fd (up_client\<lparr>command_count := 50\<rparr>)"
    "AEROSPACE_RECONNECT_INTERVAL \<le> command_count (up_client\<lparr>command_count := 50\<rparr>)"
    "socket_path (up_client\<lparr>command_count := 50\<rparr>) = Some ''/tmp/bobko.aerospace-me.sock''"
    by (simp_all add: up_client_def AEROSPACE_RECONNECT_INTERVAL_def)
  show ?thesis
    using h proactive_refresh [OF h, of calm_env]
      proactive_refresh [OF h, of "calm_env\<lparr>connect_ret := - 1\<rparr>"]
    by (simp add: calm_env_def up_client_def)
qed

subsection \<open>Overflow of the read buffer\<close>

text \<open>
  C3. Take a call whose write phase completes and whose loop comes to a state where
  the buffer holds \<open>READ_BUFFER_SIZE\<close> bytes (or more) from which the reader gets no
  document. The call returns NULL and prints the overflow message, the buffer length is
  0 afterwards, and the descriptor is the one held before: it is not closed. No byte
  outside the array has been written.
\<close>

theorem framing_overflow:
  assumes "0 \<le> fd c" and "arg_count \<noteq> 0"
    and "W (envelope as arg_count stdin_payload) = Some json_str" and "0 \<le> writev_ret e"
    and "loop_reaches P (c\<lparr>command_count := command_count c + 1\<rparr>, inbox,
                         [SysWritev (fd c) (json_str @ [CHR 0x0A])]) (c1, inbox1, evs1)"
    and "READ_BUFFER_SIZE \<le> read_buf_len c1" and "P (buffered c1) = None"
  shows "execute_aerospace_command P W e (Some c) (Some as) arg_count stdin_payload
           expected_output_field inbox
         = (Returns None, Some (c1\<lparr>read_buf_len := 0\<rparr>), inbox1, evs1 @ [Stderr ReadBufferOverflow])
         \<and> fd c1 = fd c
         \<and> (\<forall>i. READ_BUFFER_SIZE \<le> i \<longrightarrow> read_buf c1 i = read_buf c i)
         \<and> (\<forall>f. SysClose f \<notin> set (evs1 @ [Stderr ReadBufferOverflow]))"
proof -
  note run = execute_overflowed [where P = P and W = W and field = expected_output_field, OF assms]
  from loop_reaches_frame [OF assms(5)] have frame:
    "fd c1 = fd c" "\<forall>i. READ_BUFFER_SIZE \<le> i \<longrightarrow> read_buf c1 i = read_buf c i"
    by simp_all
  from loop_reaches_events [OF assms(5)] obtain rs where
    rs: "evs1 = [SysWritev (fd c) (json_str @ [CHR 0x0A])] @ rs" "list_all is_read rs"
    by auto
  have "SysClose f \<notin> set (evs1 @ [Stderr ReadBufferOverflow])" for f
    using rs by (auto simp: list_all_iff)
  with run frame show ?thesis by blast
qed

theorem framing_overflow_witness:
  "\<exists>c'. execute_aerospace_command flat_read flat_write calm_env (Some up_client)
            (Some [''workspace'', ''next'']) 2 (Some []) None [Chunk (replicate 8192 (CHR ''x''))]
          = (Returns None, Some c', [],
             [SysWritev 3 (''{\"command\":\"workspace\",\"stdin\":\"\",\"args\":[\"workspace\",\"next\"]}'' @ [CHR 0x0A]),
              SysRead 3 8192, Stderr ReadBufferOverflow])
        \<and> fd c' = 3 \<and> read_buf_len c' = 0"
proof -
  let ?js = "''{\"command\":\"workspace\",\"stdin\":\"\",\"args\":[\"workspace\",\"next\"]}''"
  let ?junk = "replicate 8192 (CHR ''x'')"
  let ?c0 = "up_client\<lparr>command_count := command_count up_client + 1\<rparr>"
  let ?c1 = "?c0\<lparr>read_buf := store (read_buf ?c0) (read_buf_len ?c0) ?junk,
                 read_buf_len := read_buf_len ?c0 + length ?junk\<rparr>"
  have len0: "read_buf_len ?c0 = 0" by (simp add: up_client_def)
  have step: "loop_body flat_read ?c0 (Chunk ?junk # []) [SysWritev (fd up_client) (?js @ [CHR 0x0A])]
      = Continue ?c1 [] ([SysWritev (fd up_client) (?js @ [CHR 0x0A])]
                         @ [SysRead (fd ?c0) (READ_BUFFER_SIZE - read_buf_len ?c0)])"
    by (rule loop_body_chunk) (simp_all add: len0 READ_BUFFER_SIZE_def)
  have reach: "loop_reaches flat_read
      (?c0, [Chunk ?junk], [SysWritev (fd up_client) (?js @ [CHR 0x0A])])
      (?c1, [], [SysWritev (fd up_client) (?js @ [CHR 0x0A])]
                @ [SysRead (fd ?c0) (READ_BUFFER_SIZE - read_buf_len ?c0)])"
    by (rule loop_reaches.round [OF loop_reaches.here step])
  have full: "READ_BUFFER_SIZE \<le> read_buf_len ?c1"
    by (simp add: READ_BUFFER_SIZE_def)
  have "buffered ?c1 = buffered ?c0 @ ?junk" by (rule buffered_store)
  then have "buffered ?c1 = ?junk" by (simp add: buffered_empty len0)
  then have none: "flat_read (buffered ?c1) = None"
    by (simp only: replicate_8192) (simp add: flat_read_not_object is_space_def)
  have "0 \<le> fd up_client" "(2::int) \<noteq> 0" "0 \<le> writev_ret calm_env"
    by (simp_all add: up_client_def calm_env_def)
  from framing_overflow [where P = flat_read and W = flat_write and expected_output_field = None,
      OF this(1,2) flat_write_workspace_next this(3) reach full none]
  show ?thesis
    by (simp add: up_client_def READ_BUFFER_SIZE_def)
qed

subsection \<open>Failures of the transport\<close>

text \<open>
  C4. On a client that holds a descriptor, with accepted arguments, each of these makes
  the call return NULL with the descriptor closed (the last event of the call), the
  client without a descriptor and the buffer length 0: \<^verbatim>\<open>writev\<close> fails; or the write
  succeeds and, at some pass of the loop where no document is available and the buffer
  is not full, \<^verbatim>\<open>read\<close> returns 0 (the peer closed) or a negative value (the timeout
  expired, or another error). The next \<^verbatim>\<open>aerospace_ensure_connected\<close>, in any environment
  \<open>e'\<close>, then makes a fresh connection attempt.
\<close>

theorem transport_failure_disconnects:
  assumes "0 \<le> fd c" and "arg_count \<noteq> 0"
    and "W (envelope as arg_count stdin_payload) = Some json_str"
    and "socket_path c = Some path"
    and "writev_ret e < 0
         \<or> (0 \<le> writev_ret e
            \<and> loop_reaches P (c\<lparr>command_count := command_count c + 1\<rparr>, inbox,
                              [SysWritev (fd c) (json_str @ [CHR 0x0A])]) (c1, inbox1, evs1)
            \<and> (read_buf_len c1 = 0 \<or> P (buffered c1) = None)
            \<and> read_buf_len c1 < READ_BUFFER_SIZE
            \<and> fst (sys_read (READ_BUFFER_SIZE - read_buf_len c1) inbox1) \<le> 0)"
  shows "\<exists>c' inbox' evs.
           execute_aerospace_command P W e (Some c) (Some as) arg_count stdin_payload
             expected_output_field inbox = (Returns None, Some c', inbox', evs)
           \<and> fd c' = - 1 \<and> read_buf_len c' = 0 \<and> last evs = SysClose (fd c)
           \<and> aerospace_ensure_connected e' (Some c') =
               (let nfd = (if socket_ret e' < 0 \<or> connect_ret e' < 0 then - 1 else socket_ret e')
                in ((if 0 \<le> nfd then 1 else 0),
                    Some (c'\<lparr>fd := nfd, read_buf_len := 0, command_count := 0\<rparr>),
                    [Stderr SocketDisconnected, SysSocket]
                    @ (if socket_ret e' < 0 then []
                       else if connect_ret e' < 0
                       then [SysConnect (socket_ret e') path, SysClose (socket_ret e')]
                       else [SysConnect (socket_ret e') path, SysSetsockopt (socket_ret e')])
                    @ (if nfd < 0 then [Stderr ReconnectFailed] else [Stderr Reconnected])))"
proof -
  have "\<exists>c' inbox' evs.
           execute_aerospace_command P W e (Some c) (Some as) arg_count stdin_payload
             expected_output_field inbox = (Returns None, Some c', inbox', evs)
           \<and> fd c' = - 1 \<and> read_buf_len c' = 0 \<and> last evs = SysClose (fd c)
           \<and> socket_path c' = Some path"
  proof (cases "writev_ret e < 0")
    case True
    from execute_write_failed [where W = W and P = P and field = expected_output_field and inbox = inbox,
        OF assms(1-3) True] assms(4) show ?thesis by simp
  next
    case False
    with assms(5) have w: "0 \<le> writev_ret e"
      and r: "loop_reaches P (c\<lparr>command_count := command_count c + 1\<rparr>, inbox,
                              [SysWritev (fd c) (json_str @ [CHR 0x0A])]) (c1, inbox1, evs1)"
      and p: "read_buf_len c1 = 0 \<or> P (buffered c1) = None"
      and l: "read_buf_len c1 < READ_BUFFER_SIZE"
      and z: "fst (sys_read (READ_BUFFER_SIZE - read_buf_len c1) inbox1) \<le> 0"
      by simp_all
    from loop_reaches_frame [OF r] assms(4) have "socket_path c1 = Some path" by simp
    with execute_read_failed [where W = W and P = P and field = expected_output_field,
        OF assms(1-3) w r p l z]
    show ?thesis by auto
  qed
  then obtain c' inbox' evs where
    run: "execute_aerospace_command P W e (Some c) (Some as) arg_count stdin_payload
             expected_output_field inbox = (Returns None, Some c', inbox', evs)"
    and st: "fd c' = - 1" "read_buf_len c' = 0" "last evs = SysClose (fd c)"
    and sp: "socket_path c' = Some path"
    by blast
  from st(1) have "fd c' < 0" by simp
  from reconnect_when_down [OF this sp, of e'] run st show ?thesis by blast
qed

theorem transport_failure_disconnects_witness:
  "(\<exists>c' inbox' evs.
      execute_aerospace_command flat_read flat_write (calm_env\<lparr>writev_ret := - 1\<rparr>) (Some up_client)
        (Some [''workspace'', ''next'']) 2 (Some []) None [] = (Returns None, Some c', inbox', evs)
      \<and> fd c' = - 1 \<and> read_buf_len c' = 0 \<and> last evs = SysClose 3
      \<and> aerospace_ensure_connected calm_env (Some c') =
           (1, Some (c'\<lparr>fd := 4, read_buf_len := 0, command_count := 0\<rparr>),
            [Stderr SocketDisconnected, SysSocket, SysConnect 4 ''/tmp/bobko.aerospace-me.sock'',
             SysSetsockopt 4, Stderr Reconnected]))
   \<and> (\<exists>c' inbox' evs.
      execute_aerospace_command flat_read flat_write calm_env (Some up_client)
        (Some [''workspace'', ''next'']) 2 (Some []) None [Closed] = (Returns None, Some c', inbox', evs)
      \<and> fd c' = - 1 \<and> read_buf_len c' = 0 \<and> last evs = SysClose 3
      \<and> aerospace_ensure_connected calm_env (Some c') =
           (1, Some (c'\<lparr>fd := 4, read_buf_len := 0, command_count := 0\<rparr>),
            [Stderr SocketDisconnected, SysSocket, SysConnect 4 ''/tmp/bobko.aerospace-me.sock'',
             SysSetsockopt 4, Stderr Reconnected]))
   \<and> (\<exists>c' inbox' evs.
      execute_aerospace_command flat_read flat_write calm_env (Some up_client)
        (Some [''workspace'', ''next'']) 2 (Some []) None [Timeout] = (Returns None, Some c', inbox', evs)
      \<and> fd c' = - 1 \<and> read_buf_len c' = 0 \<and> last evs = SysClose 3
      \<and> aerospace_ensure_connected calm_env (Some c') =
           (1, Some (c'\<lparr>fd := 4, read_buf_len := 0, command_count := 0\<rparr>),
            [Stderr SocketDisconnected, SysSocket, SysConnect 4 ''/tmp/bobko.aerospace-me.sock'',
             SysSetsockopt 4, Stderr Reconnected]))"
proof -
  let ?js = "''{\"command\":\"workspace\",\"stdin\":\"\",\"args\":[\"workspace\",\"next\"]}''"
  let ?c0 = "up_client\<lparr>command_count := command_count up_client + 1\<rparr>"
  have v: "0 \<le> fd up_client" "(2::int) \<noteq> 0"
    "socket_path up_client = Some ''/tmp/bobko.aerospace-me.sock''"
    by (simp_all add: up_client_def)
  have here: "loop_reaches flat_read (?c0, ib, [SysWritev (fd up_client) (?js @ [CHR 0x0A])])
                (?c0, ib, [SysWritev (fd up_client) (?js @ [CHR 0x0A])])" for ib
    by (rule loop_reaches.here)
  have rd: "read_buf_len ?c0 = 0 \<or> flat_read (buffered ?c0) = None"
    "read_buf_len ?c0 < READ_BUFFER_SIZE"
    "fst (sys_read (READ_BUFFER_SIZE - read_buf_len ?c0) [Closed]) \<le> 0"
    "fst (sys_read (READ_BUFFER_SIZE - read_buf_len ?c0) [Timeout]) \<le> 0"
    by (simp_all add: up_client_def READ_BUFFER_SIZE_def)
  have w: "writev_ret (calm_env\<lparr>writev_ret := - 1\<rparr>) < 0" "0 \<le> writev_ret calm_env"
    by (simp_all add: calm_env_def)
  have a: "writev_ret (calm_env\<lparr>writev_ret := - 1\<rparr>) < 0 \<or> X" for X
    using w(1) by simp
  note t = transport_failure_disconnects [where P = flat_read and W = flat_write
      and expected_output_field = None and e' = calm_env, OF v(1,2) flat_write_workspace_next v(3)]
  have p1: "writev_ret (calm_env\<lparr>writev_ret := - 1\<rparr>) < 0 \<or> X" for X
    using w(1) by simp
  have p2: "writev_ret calm_env < 0
      \<or> (0 \<le> writev_ret calm_env
         \<and> loop_reaches flat_read (?c0, [Closed], [SysWritev (fd up_client) (?js @ [CHR 0x0A])])
              (?c0, [Closed], [SysWritev (fd up_client) (?js @ [CHR 0x0A])])
         \<and> (read_buf_len ?c0 = 0 \<or> flat_read (buffered ?c0) = None)
         \<and> read_buf_len ?c0 < READ_BUFFER_SIZE
         \<and> fst (sys_read (READ_BUFFER_SIZE - read_buf_len ?c0) [Closed]) \<le> 0)"
    using w(2) here rd by blast
  have p3: "writev_ret calm_env < 0
      \<or> (0 \<le> writev_ret calm_env
         \<and> loop_reaches flat_read (?c0, [Timeout], [SysWritev (fd up_client) (?js @ [CHR 0x0A])])
              (?c0, [Timeout], [SysWritev (fd up_client) (?js @ [CHR 0x0A])])
         \<and> (read_buf_len ?c0 = 0 \<or> flat_read (buffered ?c0) = None)
         \<and> read_buf_len ?c0 < READ_BUFFER_SIZE
         \<and> fst (sys_read (READ_BUFFER_SIZE - read_buf_len ?c0) [Timeout]) \<le> 0)"
    using w(2) here rd by blast
  show ?thesis
    using t [where e = "calm_env\<lparr>writev_ret := - 1\<rparr>" and inbox = "[]", OF p1] t [OF p2] t [OF p3]
    by (simp add: calm_env_def up_client_def)
qed

subsection \<open>The result of a parsed response\<close>

text \<open>
  C7, as amended. Take a call whose write phase completes and whose loop ends with a
  parsed document that has an integer \<open>exitCode\<close> \<open>n\<close>. The code narrows \<open>n\<close> to a C
  \<open>int\<close>, so the test is on the low 32 bits of \<open>n\<close>. When they are not all zero the
  call returns a C-string copy of the \<open>stderr\<close> member if that is a string, else NULL,
  whatever the success field. When they are zero and a success field was named, it
  returns a C-string copy of that member if it is a string, else NULL; NULL too when no
  field was named. Nothing is printed in any of these cases. For \<open>n\<close> in the range of a
  C \<open>int\<close> the test is \<open>n \<noteq> 0\<close>, and the copy of a string without a NUL byte is the
  string.
\<close>

theorem result_field_selection:
  assumes "0 \<le> fd c" and "arg_count \<noteq> 0"
    and "W (envelope as arg_count stdin_payload) = Some json_str" and "0 \<le> writev_ret e"
    and "read_loop P (c\<lparr>command_count := command_count c + 1\<rparr>) inbox
           [SysWritev (fd c) (json_str @ [CHR 0x0A])] = (Parsed doc k, c1, inbox1, evs1)"
    and "yyjson_obj_get doc ''exitCode'' = Some (JInt n)"
  shows "execute_aerospace_command P W e (Some c) (Some as) arg_count stdin_payload
           expected_output_field inbox
         = (Returns
              (if n mod 2 ^ 32 \<noteq> 0
               then (case yyjson_obj_get doc ''stderr'' of Some (JStr s) \<Rightarrow> Some (strdup s) | _ \<Rightarrow> None)
               else (case expected_output_field of
                       None \<Rightarrow> None
                     | Some field \<Rightarrow>
                         (case yyjson_obj_get doc field of Some (JStr s) \<Rightarrow> Some (strdup s) | _ \<Rightarrow> None))),
            Some (compact c1 k), inbox1, evs1)
         \<and> (- (2 ^ 31) \<le> n \<and> n < 2 ^ 31 \<longrightarrow> (n mod 2 ^ 32 \<noteq> 0) = (n \<noteq> 0))
         \<and> (\<forall>s. CHR 0x00 \<notin> set s \<longrightarrow> strdup s = s)"
  using execute_parsed [where W = W and P = P and field = expected_output_field, OF assms(1-5)]
    extract_result_int [OF assms(6), of expected_output_field] c_int_in_range [of n] strdup_plain
  by simp

theorem result_field_selection_witness:
  "fst (execute_aerospace_command flat_read flat_write calm_env (Some up_client)
          (Some [''list-workspaces'', ''--monitor'', ''focused'']) 3 (Some []) (Some ''stdout'')
          [Chunk ''{\"exitCode\":0,\"stdout\":\"ok\"}'']) = Returns (Some ''ok'')
   \<and> fst (execute_aerospace_command flat_read flat_write calm_env (Some up_client)
          (Some [''list-workspaces'', ''--monitor'', ''focused'']) 3 (Some []) (Some ''stdout'')
          [Chunk ''{\"exitCode\":1,\"stderr\":\"boom\"}'']) = Returns (Some ''boom'')
   \<and> fst (execute_aerospace_command flat_read flat_write calm_env (Some up_client)
          (Some [''list-workspaces'', ''--monitor'', ''focused'']) 3 (Some []) (Some ''stdout'')
          [Chunk ''{\"exitCode\":0}'']) = Returns None
   \<and> snd (snd (snd (execute_aerospace_command flat_read flat_write calm_env (Some up_client)
          (Some [''list-workspaces'', ''--monitor'', ''focused'']) 3 (Some []) (Some ''stdout'')
          [Chunk ''{\"exitCode\":0}''])))
       = [SysWritev 3 ''{\"command\":\"list-workspaces\",\"stdin\":\"\",\"args\":[\"list-workspaces\",\"--monitor\",\"focused\"]}\<newline>'',
          SysRead 3 8192]"
proof -
  have v: "0 \<le> fd up_client" "(3::int) \<noteq> 0" "0 \<le> writev_ret calm_env"
    by (simp_all add: up_client_def calm_env_def)
  note t = result_field_selection [where P = flat_read and W = flat_write
      and expected_output_field = "Some ''stdout''",
      OF v(1,2) flat_write_list_workspaces v(3) read_loop_sample]
  have 1: "fst (execute_aerospace_command flat_read flat_write calm_env (Some up_client)
          (Some [''list-workspaces'', ''--monitor'', ''focused'']) 3 (Some []) (Some ''stdout'')
          [Chunk ''{\"exitCode\":0,\"stdout\":\"ok\"}'']) = Returns (Some ''ok'')"
    using t [OF _ _ flat_read_ok_stdout, of 0 "[]"]
    by (simp add: READ_BUFFER_SIZE_def strdup_def)
  have 2: "fst (execute_aerospace_command flat_read flat_write calm_env (Some up_client)
          (Some [''list-workspaces'', ''--monitor'', ''focused'']) 3 (Some []) (Some ''stdout'')
          [Chunk ''{\"exitCode\":1,\"stderr\":\"boom\"}'']) = Returns (Some ''boom'')"
    using t [OF _ _ flat_read_boom, of 1 "[]"]
    by (simp add: READ_BUFFER_SIZE_def strdup_def)
  have 3: "fst (execute_aerospace_command flat_read flat_write calm_env (Some up_client)
          (Some [''list-workspaces'', ''--monitor'', ''focused'']) 3 (Some []) (Some ''stdout'')
          [Chunk ''{\"exitCode\":0}'']) = Returns None
   \<and> snd (snd (snd (execute_aerospace_command flat_read flat_write calm_env (Some up_client)
          (Some [''list-workspaces'', ''--monitor'', ''focused'']) 3 (Some []) (Some ''stdout'')
          [Chunk ''{\"exitCode\":0}''])))
       = [SysWritev 3 ''{\"command\":\"list-workspaces\",\"stdin\":\"\",\"args\":[\"list-workspaces\",\"--monitor\",\"focused\"]}\<newline>'',
          SysRead 3 8192]"
    using t [OF _ _ flat_read_bare, of 0 "[]"]
    by (simp add: READ_BUFFER_SIZE_def up_client_def)
  from 1 2 3 show ?thesis by simp
qed

text \<open>
  C7 as the specification states it fails: the response below has the non-zero
  \<open>exitCode\<close> \<open>2 ^ 32\<close> and the \<open>stderr\<close> string \<open>boom\<close>, and the call returns the \<open>stdout\<close>
  string \<open>ok\<close>.
\<close>

theorem result_field_selection_counterexample:
  "flat_read ''{\"exitCode\":4294967296,\"stderr\":\"boom\",\"stdout\":\"ok\"}''
     = Some (JObj [(''exitCode'', JInt 4294967296), (''stderr'', JStr ''boom''),
                   (''stdout'', JStr ''ok'')], 53)
   \<and> (4294967296 :: int) \<noteq> 0
   \<and> fst (execute_aerospace_command flat_read flat_write calm_env (Some up_client)
          (Some [''list-workspaces'', ''--monitor'', ''focused'']) 3 (Some []) (Some ''stdout'')
          [Chunk ''{\"exitCode\":4294967296,\"stderr\":\"boom\",\"stdout\":\"ok\"}''])
       = Returns (Some ''ok'')
   \<and> fst (aerospace_list_workspaces flat_read flat_write calm_env (Some up_client) True
          [Chunk ''{\"exitCode\":4294967296,\"stderr\":\"boom\",\"stdout\":\"ok\"}''])
       \<noteq> Returns (Some ''boom'')"
proof -
  have v: "0 \<le> fd up_client" "(3::int) \<noteq> 0" "0 \<le> writev_ret calm_env" "read_buf_len up_client = 0"
    by (simp_all add: up_client_def calm_env_def)
  have "fst (execute_aerospace_command flat_read flat_write calm_env (Some up_client)
          (Some [''list-workspaces'', ''--monitor'', ''focused'']) 3 (Some []) (Some ''stdout'')
          [Chunk ''{\"exitCode\":4294967296,\"stderr\":\"boom\",\"stdout\":\"ok\"}''])
       = Returns (Some ''ok'')"
    using execute_one_chunk [where P = flat_read and W = flat_write and field = "Some ''stdout''"
        and rest = "[]", OF v(1,2) flat_write_list_workspaces v(3,4) _ _ flat_read_wide_exit]
    by (simp add: READ_BUFFER_SIZE_def extract_result_def strdup_def)
  then show ?thesis
    using flat_read_wide_exit by (simp add: aerospace_list_workspaces_def)
qed

subsection \<open>A response without a valid exit code\<close>

text \<open>
  C8. Take a call whose write phase completes, on a client whose buffer length is
  within the capacity, with a reader that never consumes more than it is shown. When
  the loop ends with a parsed document whose \<open>exitCode\<close> member is missing or is not an
  integer, the call returns NULL and prints the message about the exit code; the
  descriptor is the one held before, and the buffer holds what followed the \<open>k\<close> bytes
  of that document, no more and no less.
\<close>

theorem malformed_response:
  assumes "0 \<le> fd c" and "arg_count \<noteq> 0"
    and "W (envelope as arg_count stdin_payload) = Some json_str" and "0 \<le> writev_ret e"
    and "read_buf_len c \<le> READ_BUFFER_SIZE" and "reader_bounded P"
    and "read_loop P (c\<lparr>command_count := command_count c + 1\<rparr>) inbox
           [SysWritev (fd c) (json_str @ [CHR 0x0A])] = (Parsed doc k, c1, inbox1, evs1)"
    and "\<not> yyjson_is_int (yyjson_obj_get doc ''exitCode'')"
  shows "execute_aerospace_command P W e (Some c) (Some as) arg_count stdin_payload
           expected_output_field inbox
         = (Returns None, Some (compact c1 k), inbox1, evs1 @ [Stderr NoValidExitCode])
         \<and> fd (compact c1 k) = fd c
         \<and> P (buffered c1) = Some (doc, k) \<and> k \<le> read_buf_len c1
         \<and> read_buf_len (compact c1 k) = read_buf_len c1 - k
         \<and> buffered (compact c1 k) = drop k (buffered c1)"
proof -
  have len: "read_buf_len (c\<lparr>command_count := command_count c + 1\<rparr>) \<le> READ_BUFFER_SIZE"
    using assms(5) by simp
  note p = read_loop_parsed [OF assms(7)]
  from p(2) assms(6) have k: "k \<le> read_buf_len c1"
    unfolding reader_bounded_def by fastforce
  from p(5) [OF len] have cap: "read_buf_len c1 \<le> READ_BUFFER_SIZE" .
  from execute_parsed [where W = W and P = P and field = expected_output_field, OF assms(1-4,7)]
    extract_result_malformed [OF assms(8), of expected_output_field]
  have "execute_aerospace_command P W e (Some c) (Some as) arg_count stdin_payload
           expected_output_field inbox
         = (Returns None, Some (compact c1 k), inbox1, evs1 @ [Stderr NoValidExitCode])"
    by simp
  moreover have "fd (compact c1 k) = fd c" using p(3) by (simp add: compact_frame)
  ultimately show ?thesis
    using p(2) k compact_len [OF k cap] buffered_compact [OF k cap] by simp
qed

theorem malformed_response_witness:
  "\<exists>c'. execute_aerospace_command flat_read flat_write calm_env (Some up_client)
            (Some [''list-workspaces'', ''--monitor'', ''focused'']) 3 (Some []) (Some ''stdout'')
            [Chunk (''{\"stdout\":\"x\"}'' @ [CHR 0x0A] @ ''{\"ex'')]
          = (Returns None, Some c', [],
             [SysWritev 3 ''{\"command\":\"list-workspaces\",\"stdin\":\"\",\"args\":[\"list-workspaces\",\"--monitor\",\"focused\"]}\<newline>'',
              SysRead 3 8192, Stderr NoValidExitCode])
        \<and> fd c' = 3 \<and> read_buf_len c' = 5 \<and> buffered c' = [CHR 0x0A] @ ''{\"ex''"
proof -
  let ?bs = "''{\"stdout\":\"x\"}'' @ [CHR 0x0A] @ ''{\"ex''"
  let ?c1 = "up_client\<lparr>command_count := 1, read_buf := store (read_buf up_client) 0 ?bs,
                       read_buf_len := length ?bs\<rparr>"
  have v: "0 \<le> fd up_client" "(3::int) \<noteq> 0" "0 \<le> writev_ret calm_env"
    "read_buf_len up_client \<le> READ_BUFFER_SIZE"
    by (simp_all add: up_client_def calm_env_def)
  have loop: "read_loop flat_read (up_client\<lparr>command_count := command_count up_client + 1\<rparr>)
      (Chunk ?bs # [])
      [SysWritev (fd up_client) (''{\"command\":\"list-workspaces\",\"stdin\":\"\",\"args\":[\"list-workspaces\",\"--monitor\",\"focused\"]}'' @ [CHR 0x0A])]
      = (Parsed (JObj [(''stdout'', JStr ''x'')]) 14, ?c1, [],
         [SysWritev (fd up_client) (''{\"command\":\"list-workspaces\",\"stdin\":\"\",\"args\":[\"list-workspaces\",\"--monitor\",\"focused\"]}'' @ [CHR 0x0A])]
         @ [SysRead 3 READ_BUFFER_SIZE])"
    by (rule read_loop_sample [where P = flat_read, OF _ _ flat_read_no_exit_code])
       (simp_all add: READ_BUFFER_SIZE_def)
  have bad: "\<not> yyjson_is_int (yyjson_obj_get (JObj [(''stdout'', JStr ''x'')]) ''exitCode'')"
    by simp
  have buf: "buffered ?c1 = ?bs" by (rule buffered_fresh)
  from malformed_response [where P = flat_read and W = flat_write
      and expected_output_field = "Some ''stdout''",
      OF v(1,2) flat_write_list_workspaces v(3,4) flat_read_bounded loop bad]
  show ?thesis
    unfolding buf by (simp add: up_client_def READ_BUFFER_SIZE_def)
qed

subsection \<open>The invariant of the client\<close>

text \<open>
  C1, as amended. With a reader that never consumes more than it is shown, every
  client that the public operations can leave has a buffer length of at most
  \<open>READ_BUFFER_SIZE\<close> (8192), and a buffer length of 0 whenever it holds no descriptor.
  The command counter of a client without a descriptor need not be 0: it is set to 0,
  with the buffer length, by the connection attempt of the next
  \<^verbatim>\<open>aerospace_ensure_connected\<close>, in any environment \<open>e\<close>.
\<close>

theorem client_invariant:
  assumes "reachable P W (Some c)" and "reader_bounded P"
  shows "read_buf_len c \<le> READ_BUFFER_SIZE \<and> (fd c < 0 \<longrightarrow> read_buf_len c = 0)
         \<and> (fd c < 0 \<longrightarrow>
              (\<exists>r c' evs. aerospace_ensure_connected e (Some c) = (r, Some c', evs)
                 \<and> read_buf_len c' = 0 \<and> command_count c' = 0))"
proof -
  from reachable_ok [OF assms] have ok: "client_ok c" by simp
  then obtain path where "socket_path c = Some path" by (auto simp: client_ok_def)
  from reconnect_when_down [OF _ this, of e] ok show ?thesis
    by (auto simp: client_ok_def Let_def)
qed

theorem client_invariant_witness:
  "reachable flat_read flat_write (Some dropped_client) \<and> reader_bounded flat_read
   \<and> fd dropped_client < 0
   \<and> read_buf_len dropped_client \<le> READ_BUFFER_SIZE \<and> read_buf_len dropped_client = 0
   \<and> (\<exists>r c' evs. aerospace_ensure_connected calm_env (Some dropped_client) = (r, Some c', evs)
         \<and> read_buf_len c' = 0 \<and> command_count c' = 0)"
proof -
  have "fd dropped_client < 0" by (simp add: dropped_client_def)
  with client_invariant [OF dropped_client_reachable flat_read_bounded, of calm_env]
    dropped_client_reachable flat_read_bounded
  show ?thesis by simp
qed

text \<open>
  C1 as the specification states it fails: a fresh connected client sends one
  \<open>list-workspaces\<close> command and the peer closes the connection before answering. The
  client is left without a descriptor and with a command counter of 1.
\<close>

theorem client_invariant_counterexample:
  "reachable flat_read flat_write (Some dropped_client)
   \<and> fd dropped_client < 0 \<and> command_count dropped_client = 1
   \<and> command_count dropped_client \<noteq> 0"
  using dropped_client_reachable by (simp add: dropped_client_def up_client_def)

subsection \<open>Compaction, and responses that arrive together or in pieces\<close>

text \<open>
  C2, as amended. Take a client that holds a descriptor, with a buffer length within
  the capacity, accepted arguments and a write that succeeds.

  First, with a reader that never consumes more than it is shown: when the loop ends
  with a document found in the buffer and \<open>k\<close> bytes consumed, the call leaves a buffer
  that holds what followed those \<open>k\<close> bytes, in the same order, and whose length is the
  number of bytes left over.

  Second, let the buffer followed by the chunks of the incoming stream (none of them
  empty, cut anywhere) be the concatenation of \<open>N\<close> framed documents, each of at most
  \<open>READ_BUFFER_SIZE\<close> bytes with the white space before it. Then \<open>N\<close> calls in a row all
  return, the \<open>i\<close>-th with the result of the \<open>i\<close>-th document, and at the end the buffer
  and the stream are empty: no byte was lost or read twice. The descriptor is still
  held and the counter has grown by \<open>N\<close>.
\<close>

theorem compaction_and_pipelining:
  assumes "0 \<le> fd c" and "arg_count \<noteq> 0"
    and "W (envelope as arg_count stdin_payload) = Some json_str" and "0 \<le> writev_ret e"
    and "read_buf_len c \<le> READ_BUFFER_SIZE"
  shows "(reader_bounded P
          \<and> read_loop P (c\<lparr>command_count := command_count c + 1\<rparr>) inbox
               [SysWritev (fd c) (json_str @ [CHR 0x0A])] = (Parsed doc k, c1, inbox1, evs1)
          \<longrightarrow> execute_aerospace_command P W e (Some c) (Some as) arg_count stdin_payload field inbox
                = (Returns (fst (extract_result doc field)), Some (compact c1 k), inbox1,
                   evs1 @ snd (extract_result doc field))
              \<and> P (buffered c1) = Some (doc, k) \<and> k \<le> read_buf_len c1
              \<and> read_buf_len (compact c1 k) = read_buf_len c1 - k
              \<and> buffered (compact c1 k) = drop k (buffered c1))
       \<and> ((\<forall>(enc, doc) \<in> set frames. framed P enc doc \<and> length enc \<le> READ_BUFFER_SIZE)
          \<and> [] \<notin> set chunks \<and> buffered c @ concat chunks = concat (map fst frames)
          \<longrightarrow> (\<exists>c'. execute_times P W e (Some as) arg_count stdin_payload field (length frames)
                       (Some c) (map Chunk chunks)
                     = (map (\<lambda>(enc, doc). Returns (fst (extract_result doc field))) frames,
                        Some c', [])
                   \<and> read_buf_len c' = 0 \<and> fd c' = fd c
                   \<and> command_count c' = command_count c + of_nat (length frames)))"
proof (intro conjI impI)
  assume h: "reader_bounded P
          \<and> read_loop P (c\<lparr>command_count := command_count c + 1\<rparr>) inbox
               [SysWritev (fd c) (json_str @ [CHR 0x0A])] = (Parsed doc k, c1, inbox1, evs1)"
  then have loop: "read_loop P (c\<lparr>command_count := command_count c + 1\<rparr>) inbox
               [SysWritev (fd c) (json_str @ [CHR 0x0A])] = (Parsed doc k, c1, inbox1, evs1)"
    and rb: "reader_bounded P" by simp_all
  have len: "read_buf_len (c\<lparr>command_count := command_count c + 1\<rparr>) \<le> READ_BUFFER_SIZE"
    using assms(5) by simp
  note p = read_loop_parsed [OF loop]
  from p(2) rb have k: "k \<le> read_buf_len c1"
    unfolding reader_bounded_def by fastforce
  from p(5) [OF len] have cap: "read_buf_len c1 \<le> READ_BUFFER_SIZE" .
  from execute_parsed [where W = W and P = P and field = field, OF assms(1-4) loop]
  show "execute_aerospace_command P W e (Some c) (Some as) arg_count stdin_payload field inbox
                = (Returns (fst (extract_result doc field)), Some (compact c1 k), inbox1,
                   evs1 @ snd (extract_result doc field))" .
  from p(2) show "P (buffered c1) = Some (doc, k)" .
  from k show "k \<le> read_buf_len c1" .
  from compact_len [OF k cap] show "read_buf_len (compact c1 k) = read_buf_len c1 - k" .
  from buffered_compact [OF k cap] show "buffered (compact c1 k) = drop k (buffered c1)" .
next
  assume h: "(\<forall>(enc, doc) \<in> set frames. framed P enc doc \<and> length enc \<le> READ_BUFFER_SIZE)
          \<and> [] \<notin> set chunks \<and> buffered c @ concat chunks = concat (map fst frames)"
  then have f: "\<forall>(enc, doc) \<in> set frames. framed P enc doc \<and> length enc \<le> READ_BUFFER_SIZE"
    and ne: "[] \<notin> set chunks" and str: "buffered c @ concat chunks = concat (map fst frames)"
    by simp_all
  from framed_calls [where W = W and P = P and field = field, OF assms(1-4) f ne assms(5) str]
  show "\<exists>c'. execute_times P W e (Some as) arg_count stdin_payload field (length frames)
                       (Some c) (map Chunk chunks)
                     = (map (\<lambda>(enc, doc). Returns (fst (extract_result doc field))) frames,
                        Some c', [])
                   \<and> read_buf_len c' = 0 \<and> fd c' = fd c
                   \<and> command_count c' = command_count c + of_nat (length frames)" .
qed

theorem compaction_and_pipelining_witness:
  "(\<exists>c'. execute_aerospace_command flat_read flat_write calm_env (Some up_client)
            (Some [''list-workspaces'', ''--monitor'', ''focused'']) 3 (Some []) (Some ''stdout'')
            [Chunk (''{\"exitCode\":0,\"stdout\":\"ok\"}'' @ [CHR 0x0A] @ ''{\"ex'')]
          = (Returns (Some ''ok''), Some c', [],
             [SysWritev 3 ''{\"command\":\"list-workspaces\",\"stdin\":\"\",\"args\":[\"list-workspaces\",\"--monitor\",\"focused\"]}\<newline>'',
              SysRead 3 8192])
        \<and> read_buf_len c' = 5 \<and> buffered c' = [CHR 0x0A] @ ''{\"ex'')
   \<and> (\<exists>c'. execute_times flat_read flat_write calm_env
            (Some [''list-workspaces'', ''--monitor'', ''focused'']) 3 (Some []) (Some ''stdout'') 2
            (Some up_client)
            [Chunk ''{\"exi'', Chunk ''tCode\":0,\"stdout\":\"ok\"}\<newline>{\"exitCode\":1'',
             Chunk '',\"stderr\":\"boom\"}'']
          = ([Returns (Some ''ok''), Returns (Some ''boom'')], Some c', [])
        \<and> read_buf_len c' = 0 \<and> fd c' = 3 \<and> command_count c' = 2)"
proof -
  let ?bs = "''{\"exitCode\":0,\"stdout\":\"ok\"}'' @ [CHR 0x0A] @ ''{\"ex''"
  let ?js = "''{\"command\":\"list-workspaces\",\"stdin\":\"\",\"args\":[\"list-workspaces\",\"--monitor\",\"focused\"]}''"
  let ?c1 = "up_client\<lparr>command_count := 1, read_buf := store (read_buf up_client) 0 ?bs,
                       read_buf_len := length ?bs\<rparr>"
  let ?d1 = "JObj [(''exitCode'', JInt 0), (''stdout'', JStr ''ok'')]"
  let ?d2 = "JObj [(''exitCode'', JInt 1), (''stderr'', JStr ''boom'')]"
  have v: "0 \<le> fd up_client" "(3::int) \<noteq> 0" "0 \<le> writev_ret calm_env"
    "read_buf_len up_client \<le> READ_BUFFER_SIZE"
    by (simp_all add: up_client_def calm_env_def)
  note t = compaction_and_pipelining [where P = flat_read and W = flat_write
      and field = "Some ''stdout''", OF v(1,2) flat_write_list_workspaces v(3,4)]
  have loop: "read_loop flat_read (up_client\<lparr>command_count := command_count up_client + 1\<rparr>)
      (Chunk ?bs # []) [SysWritev (fd up_client) (?js @ [CHR 0x0A])]
      = (Parsed ?d1 28, ?c1, [], [SysWritev (fd up_client) (?js @ [CHR 0x0A])] @ [SysRead 3 READ_BUFFER_SIZE])"
    by (rule read_loop_sample [where P = flat_read, OF _ _ flat_read_ok_and_more])
       (simp_all add: READ_BUFFER_SIZE_def)
  have buf: "buffered ?c1 = ?bs" by (rule buffered_fresh)
  have r1: "extract_result ?d1 (Some ''stdout'') = (Some ''ok'', [])"
    and r2: "extract_result ?d2 (Some ''stdout'') = (Some ''boom'', [])"
    by (simp_all add: extract_result_def strdup_def)
  from t [THEN conjunct1, rule_format, OF conjI [OF flat_read_bounded loop]]
  have 1: "\<exists>c'. execute_aerospace_command flat_read flat_write calm_env (Some up_client)
            (Some [''list-workspaces'', ''--monitor'', ''focused'']) 3 (Some []) (Some ''stdout'')
            [Chunk ?bs]
          = (Returns (Some ''ok''), Some c', [],
             [SysWritev 3 (?js @ [CHR 0x0A]), SysRead 3 8192])
        \<and> read_buf_len c' = 5 \<and> buffered c' = [CHR 0x0A] @ ''{\"ex''"
    unfolding buf r1 by (simp add: up_client_def READ_BUFFER_SIZE_def)
  have frames: "\<forall>(enc, doc) \<in> set [(''{\"exitCode\":0,\"stdout\":\"ok\"}'', ?d1),
                    (CHR 0x0A # ''{\"exitCode\":1,\"stderr\":\"boom\"}'', ?d2)].
                  framed flat_read enc doc \<and> length enc \<le> READ_BUFFER_SIZE"
    using flat_read_ok_framed flat_read_boom_framed by (simp add: READ_BUFFER_SIZE_def)
  have chunks: "[] \<notin> set [''{\"exi'', ''tCode\":0,\"stdout\":\"ok\"}\<newline>{\"exitCode\":1'', '',\"stderr\":\"boom\"}'']"
    "buffered up_client @ concat [''{\"exi'', ''tCode\":0,\"stdout\":\"ok\"}\<newline>{\"exitCode\":1'', '',\"stderr\":\"boom\"}'']
     = concat (map fst [(''{\"exitCode\":0,\"stdout\":\"ok\"}'', ?d1),
                    (CHR 0x0A # ''{\"exitCode\":1,\"stderr\":\"boom\"}'', ?d2)])"
    by (simp_all add: buffered_empty up_client_def)
  from t [THEN conjunct2, rule_format, OF conjI [OF frames conjI [OF chunks]]]
  have 2: "\<exists>c'. execute_times flat_read flat_write calm_env
            (Some [''list-workspaces'', ''--monitor'', ''focused'']) 3 (Some []) (Some ''stdout'') 2
            (Some up_client)
            [Chunk ''{\"exi'', Chunk ''tCode\":0,\"stdout\":\"ok\"}\<newline>{\"exitCode\":1'',
             Chunk '',\"stderr\":\"boom\"}'']
          = ([Returns (Some ''ok''), Returns (Some ''boom'')], Some c', [])
        \<and> read_buf_len c' = 0 \<and> fd c' = 3 \<and> command_count c' = 2"
    by (simp add: r1 r2 up_client_def numeral_2_eq_2 [symmetric] del: execute_times.simps)
  from 1 2 show ?thesis by (simp del: execute_times.simps)
qed

text \<open>
  C2 as the specification states it, for documents of any size, fails: a framed
  document of 8218 bytes arrives in one chunk, and the one call returns NULL instead of
  its \<open>stdout\<close> string, having read and dropped the first 8192 bytes.
\<close>

theorem compaction_and_pipelining_counterexample:
  "framed flat_read long_response long_document
   \<and> length long_response = 8218
   \<and> fst (extract_result long_document (Some ''stdout'')) = Some (replicate 8192 (CHR ''a''))
   \<and> fst (execute_times flat_read flat_write calm_env
            (Some [''list-workspaces'', ''--monitor'', ''focused'']) 3 (Some []) (Some ''stdout'') 1
            (Some up_client) [Chunk long_response]) = [Returns None]
   \<and> snd (snd (execute_times flat_read flat_write calm_env
            (Some [''list-workspaces'', ''--monitor'', ''focused'']) 3 (Some []) (Some ''stdout'') 1
            (Some up_client) [Chunk long_response])) = [Chunk (drop 8192 long_response)]"
proof -
  have a: "CHR 0x00 \<notin> set (replicate 8192 (CHR ''a''))" by simp
  have "fst (extract_result long_document (Some ''stdout'')) = Some (replicate 8192 (CHR ''a''))"
    using strdup_plain [OF a] by (simp add: extract_result_def long_document_def)
  moreover have "length long_response = 8218" by (simp add: long_response_def)
  moreover from long_response_overflows obtain c' where
    "execute_aerospace_command flat_read flat_write calm_env (Some up_client)
       (Some [''list-workspaces'', ''--monitor'', ''focused'']) 3 (Some []) (Some ''stdout'')
       [Chunk long_response]
     = (Returns None, Some c', [Chunk (drop 8192 long_response)],
        [SysWritev 3 ''{\"command\":\"list-workspaces\",\"stdin\":\"\",\"args\":[\"list-workspaces\",\"--monitor\",\"focused\"]}\<newline>'',
         SysRead 3 8192, Stderr ReadBufferOverflow])"
    by blast
  then have "execute_times flat_read flat_write calm_env
            (Some [''list-workspaces'', ''--monitor'', ''focused'']) 3 (Some []) (Some ''stdout'') 1
            (Some up_client) [Chunk long_response]
        = ([Returns None], Some c', [Chunk (drop 8192 long_response)])"
    by simp
  ultimately show ?thesis
    using flat_read_framed [OF flat_read_long_response] by simp
qed

end
